theory Spec2Isabelle
  imports Complex_Main
begin

section \<open>Errors and numbers\<close>

text \<open>
  The exceptions of the Python source that the model keeps as values. Coordinates are
  Python floats (or ints); the model computes with exact reals, so rounding, overflow and
  NaN are outside it. The thresholds \<open>0.5\<close>, \<open>0.2\<close> and \<open>50\<close> are the exact
  numbers of those names.
\<close>

datatype error =
  ZeroDivisionError | FileNotFoundError | OSError | TypeError | AttributeError | KeyError

text \<open>Python's \<open>a / b\<close>: raises on a zero divisor.\<close>

definition truediv :: "real \<Rightarrow> real \<Rightarrow> error + real" where
  "truediv a b = (if b = 0 then Inl ZeroDivisionError else Inr (a / b))"

section \<open>Geometry (layout\_engine.py, HybridLayoutEngine)\<close>

text \<open>A box is the list \<open>[x0, y0, x1, y1]\<close>.\<close>

type_synonym box = "real \<times> real \<times> real \<times> real"

fun calculate_iou :: "box \<Rightarrow> box \<Rightarrow> error + real" where
  "calculate_iou (a0, a1, a2, a3) (b0, b1, b2, b3) =
     (let xA = max a0 b0;
          yA = max a1 b1;
          xB = min a2 b2;
          yB = min a3 b3;
          interArea = max 0 (xB - xA) * max 0 (yB - yA);
          boxAArea = (a2 - a0) * (a3 - a1);
          boxBArea = (b2 - b0) * (b3 - b1)
      in if min boxAArea boxBArea = 0 then Inr 0
         else truediv interArea (min boxAArea boxBArea))"

fun calculate_intersection :: "box \<Rightarrow> box \<Rightarrow> error + real" where
  "calculate_intersection (a0, a1, a2, a3) (b0, b1, b2, b3) =
     (let xA = max a0 b0;
          yA = max a1 b1;
          xB = min a2 b2;
          yB = min a3 b3;
          interArea = max 0 (xB - xA) * max 0 (yB - yA);
          boxBArea = (b2 - b0) * (b3 - b1)
      in if boxBArea = 0 then Inr 0
         else truediv interArea boxBArea)"

subsection \<open>Vocabulary for the statements\<close>

fun box_area :: "box \<Rightarrow> real" where
  "box_area (x0, y0, x1, y1) = (x1 - x0) * (y1 - y0)"

fun inter_area :: "box \<Rightarrow> box \<Rightarrow> real" where
  "inter_area (a0, a1, a2, a3) (b0, b1, b2, b3) =
     max 0 (min a2 b2 - max a0 b0) * max 0 (min a3 b3 - max a1 b1)"

text \<open>A box with positive width and positive height.\<close>

fun proper_box :: "box \<Rightarrow> bool" where
  "proper_box (x0, y0, x1, y1) = (x0 < x1 \<and> y0 < y1)"

text \<open>A degenerate box, in the words of the enrichment stage: \<open>x1 \<le> x0\<close> or \<open>y1 \<le> y0\<close>.\<close>

fun degenerate :: "box \<Rightarrow> bool" where
  "degenerate (x0, y0, x1, y1) = (x1 \<le> x0 \<or> y1 \<le> y0)"

text \<open>Two boxes overlap when their common region has positive width and height.\<close>

fun overlapping :: "box \<Rightarrow> box \<Rightarrow> bool" where
  "overlapping (a0, a1, a2, a3) (b0, b1, b2, b3) =
     (max a0 b0 < min a2 b2 \<and> max a1 b1 < min a3 b3)"

text \<open>
  The specification's \<open>intersectionOverUnion\<close>, written from its words: the standard
  intersection over union, \<open>0\<close> if either area is \<open>0\<close>.
\<close>

definition spec_intersectionOverUnion :: "box \<Rightarrow> box \<Rightarrow> real" where
  "spec_intersectionOverUnion a b =
     (if box_area a = 0 \<or> box_area b = 0 then 0
      else inter_area a b / (box_area a + box_area b - inter_area a b))"

section \<open>Blocks and the merge engine (layout\_engine.py)\<close>

text \<open>
  The dictionaries of the source become records with a fixed field set. Every block has
  \<open>type\<close> and \<open>bbox\<close>; a base block adds \<open>text\<close>, a detection \<open>conf\<close> and
  \<open>source\<close>, a final block \<open>action\<close> and \<open>content\<close>. A key the source reads is
  therefore always present, and \<open>p_block.get("text", "")\<close> is the field itself.
\<close>

record geo =
  type :: string
  bbox :: box

record base_block = geo +
  "text" :: string

record detection = geo +
  conf :: real
  source :: string

record block = geo +
  action :: string
  content :: string

fun box_x0 :: "box \<Rightarrow> real" where "box_x0 (x0, y0, x1, y1) = x0"
fun box_y0 :: "box \<Rightarrow> real" where "box_y0 (x0, y0, x1, y1) = y0"
fun box_x1 :: "box \<Rightarrow> real" where "box_x1 (x0, y0, x1, y1) = x1"
fun box_y1 :: "box \<Rightarrow> real" where "box_y1 (x0, y0, x1, y1) = y1"

text \<open>The line break \<open>"\n"\<close> and Python's \<open>sep.join(xs)\<close>.\<close>

definition nl :: string where
  "nl = [CHR 0x0A]"

fun join :: "string \<Rightarrow> string list \<Rightarrow> string" where
  "join sep [] = []"
| "join sep [x] = x"
| "join sep (x # y # ys) = x @ sep @ join sep (y # ys)"

subsection \<open>merge\_consecutive\_blocks\<close>

text \<open>
  The loop of \<open>merge_consecutive_blocks\<close>: \<open>current\<close>, the blocks still to visit, and
  the list \<open>merged\<close> built so far. The blocks of the input are distinct dictionaries, so
  updating \<open>current\<close> in place is an update of a value.
\<close>

fun merge_loop :: "block \<Rightarrow> block list \<Rightarrow> block list \<Rightarrow> block list" where
  "merge_loop current [] merged = merged @ [current]"
| "merge_loop current (next_b # rest) merged =
     (let is_text_merge = (type current \<in> set [''text'', ''title'']
                           \<and> type next_b \<in> set [''text'', ''title'']);
          is_same_type = (type current = type next_b);
          curr_bottom = box_y1 (bbox current);
          next_top = box_y0 (bbox next_b)
      in if next_top - curr_bottom < 50 \<and> (is_text_merge \<or> is_same_type)
         then merge_loop
                (current\<lparr>bbox := (min (box_x0 (bbox current)) (box_x0 (bbox next_b)),
                                  min (box_y0 (bbox current)) (box_y0 (bbox next_b)),
                                  max (box_x1 (bbox current)) (box_x1 (bbox next_b)),
                                  max (box_y1 (bbox current)) (box_y1 (bbox next_b))),
                         content := content current @ nl @ content next_b,
                         type := (if is_text_merge then ''text'' else type current)\<rparr>)
                rest merged
         else merge_loop next_b rest (merged @ [current]))"

text \<open>\<open>sorted\<close> is stable, as \<open>sort_key\<close> is.\<close>

definition merge_consecutive_blocks :: "block list \<Rightarrow> block list" where
  "merge_consecutive_blocks blocks =
     (if blocks = [] then []
      else case sort_key (\<lambda>b. box_y0 (bbox b)) blocks of
             [] \<Rightarrow> []
           | current # rest \<Rightarrow> merge_loop current rest [])"

subsection \<open>intelligent\_merge\<close>

text \<open>Step 1, inner loop: the base blocks inside one table box.\<close>

fun table_scan ::
  "box \<Rightarrow> (nat \<times> base_block) list \<Rightarrow> string list \<Rightarrow> nat set
     \<Rightarrow> error + (string list \<times> nat set)" where
  "table_scan t_bbox [] t_content consumed_indices = Inr (t_content, consumed_indices)"
| "table_scan t_bbox ((idx, p_block) # ps) t_content consumed_indices =
     (case calculate_intersection t_bbox (bbox p_block) of
        Inl e \<Rightarrow> Inl e
      | Inr score \<Rightarrow>
          if score > 0.5
          then table_scan t_bbox ps (t_content @ [text p_block]) (insert idx consumed_indices)
          else table_scan t_bbox ps t_content consumed_indices)"

text \<open>Step 1, outer loop: one table block for each table detection.\<close>

fun process_tables ::
  "base_block list \<Rightarrow> detection list \<Rightarrow> block list \<Rightarrow> nat set
     \<Rightarrow> error + (block list \<times> nat set)" where
  "process_tables base_blocks [] final_blocks consumed_indices =
     Inr (final_blocks, consumed_indices)"
| "process_tables base_blocks (t_block # ts) final_blocks consumed_indices =
     (case table_scan (bbox t_block) (enumerate 0 base_blocks) [] consumed_indices of
        Inl e \<Rightarrow> Inl e
      | Inr (t_content, consumed') \<Rightarrow>
          (let full_table_text = join nl t_content
           in process_tables base_blocks ts
                (final_blocks @
                   [\<lparr>type = ''table'', bbox = bbox t_block,
                     action = ''extract_table_logic'',
                     content = (if full_table_text \<noteq> [] then full_table_text
                                else ''[EMPTY_TABLE]'')\<rparr>])
                consumed'))"

text \<open>Step 2: the base blocks no table has consumed.\<close>

fun process_remaining ::
  "(nat \<times> base_block) list \<Rightarrow> nat set \<Rightarrow> block list \<Rightarrow> block list" where
  "process_remaining [] consumed_indices final_blocks = final_blocks"
| "process_remaining ((idx, p_block) # ps) consumed_indices final_blocks =
     (if idx \<in> consumed_indices then process_remaining ps consumed_indices final_blocks
      else process_remaining ps consumed_indices
             (final_blocks @
                [\<lparr>type = type p_block, bbox = bbox p_block,
                  action = (if type p_block = ''image'' then ''crop_image''
                            else ''extract_text''),
                  content = text p_block\<rparr>]))"

text \<open>Step 3, inner loop with its \<open>break\<close>.\<close>

fun is_isolated :: "box \<Rightarrow> block list \<Rightarrow> error + bool" where
  "is_isolated hw_bbox [] = Inr True"
| "is_isolated hw_bbox (fb # fbs) =
     (case calculate_iou hw_bbox (bbox fb) of
        Inl e \<Rightarrow> Inl e
      | Inr score \<Rightarrow> if score > 0.2 then Inr False else is_isolated hw_bbox fbs)"

text \<open>Step 3, the body of the outer loop for one handwriting detection.\<close>

definition handwriting_step :: "detection \<Rightarrow> block list \<Rightarrow> error + block list" where
  "handwriting_step hw final_blocks =
     (case is_isolated (bbox hw) final_blocks of
        Inl e \<Rightarrow> Inl e
      | Inr isolated \<Rightarrow>
          if isolated
          then Inr (final_blocks @
                      [\<lparr>type = ''handwriting_region'', bbox = bbox hw,
                        action = ''send_to_ocr'', content = ''[HANDWRITING_IMAGE]''\<rparr>])
          else Inr final_blocks)"

fun process_handwriting :: "detection list \<Rightarrow> block list \<Rightarrow> error + block list" where
  "process_handwriting [] final_blocks = Inr final_blocks"
| "process_handwriting (hw # hws) final_blocks =
     (case handwriting_step hw final_blocks of
        Inl e \<Rightarrow> Inl e
      | Inr final_blocks' \<Rightarrow> process_handwriting hws final_blocks')"

text \<open>The list \<open>final_blocks\<close> as it stands before the last line of \<open>intelligent_merge\<close>.\<close>

definition final_blocks_before_merge ::
  "base_block list \<Rightarrow> detection list \<Rightarrow> detection list \<Rightarrow> error + block list" where
  "final_blocks_before_merge base_blocks table_blocks hw_blocks =
     (case process_tables base_blocks table_blocks [] {} of
        Inl e \<Rightarrow> Inl e
      | Inr (final_blocks, consumed_indices) \<Rightarrow>
          process_handwriting hw_blocks
            (process_remaining (enumerate 0 base_blocks) consumed_indices final_blocks))"

definition intelligent_merge ::
  "base_block list \<Rightarrow> detection list \<Rightarrow> detection list \<Rightarrow> error + block list" where
  "intelligent_merge base_blocks table_blocks hw_blocks =
     (case final_blocks_before_merge base_blocks table_blocks hw_blocks of
        Inl e \<Rightarrow> Inl e
      | Inr final_blocks \<Rightarrow> Inr (merge_consecutive_blocks final_blocks))"

section \<open>Vocabulary for the merge engine\<close>

text \<open>
  The pieces of the loop body of \<open>merge_consecutive_blocks\<close>, named so that statements
  can speak of them: the types that merge as text, the test that merges \<open>next_b\<close> into
  \<open>current\<close>, and the block that \<open>current\<close> becomes. Lemma \<open>merge_loop_step\<close> below
  shows that the loop is made of exactly these.
\<close>

definition text_like :: "string \<Rightarrow> bool" where
  "text_like t = (t \<in> set [''text'', ''title''])"

definition can_merge :: "block \<Rightarrow> block \<Rightarrow> bool" where
  "can_merge current next_b =
     (box_y0 (bbox next_b) - box_y1 (bbox current) < 50
      \<and> ((text_like (type current) \<and> text_like (type next_b))
           \<or> type current = type next_b))"

definition merged_block :: "block \<Rightarrow> block \<Rightarrow> block" where
  "merged_block current next_b =
     current\<lparr>bbox := (min (box_x0 (bbox current)) (box_x0 (bbox next_b)),
                       min (box_y0 (bbox current)) (box_y0 (bbox next_b)),
                       max (box_x1 (bbox current)) (box_x1 (bbox next_b)),
                       max (box_y1 (bbox current)) (box_y1 (bbox next_b))),
              content := content current @ nl @ content next_b,
              type := (if text_like (type current) \<and> text_like (type next_b)
                       then ''text'' else type current)\<rparr>"

text \<open>The sort key of \<open>merge_consecutive_blocks\<close>: the top edge \<open>b["bbox"][1]\<close>.\<close>

abbreviation top_key :: "block \<Rightarrow> real" where
  "top_key b \<equiv> box_y0 (bbox b)"

text \<open>
  The input blocks an output block is formed from. \<open>group_loop\<close> is \<open>merge_loop\<close> again,
  remembering for each \<open>current\<close> the input blocks merged into it so far instead of
  merging them; \<open>fuse\<close> merges such a group from its first block on, as the loop does.
  \<open>merge_groups\<close> are the groups of a whole call.
\<close>

definition fuse :: "block list \<Rightarrow> block" where
  "fuse g = foldl merged_block (hd g) (tl g)"

fun group_loop :: "block \<Rightarrow> block list \<Rightarrow> block list \<Rightarrow> block list list" where
  "group_loop current members [] = [members]"
| "group_loop current members (next_b # rest) =
     (if can_merge current next_b
      then group_loop (merged_block current next_b) (members @ [next_b]) rest
      else members # group_loop next_b [next_b] rest)"

definition merge_groups :: "block list \<Rightarrow> block list list" where
  "merge_groups blocks =
     (if blocks = [] then []
      else case sort_key top_key blocks of
             [] \<Rightarrow> []
           | current # rest \<Rightarrow> group_loop current [current] rest)"

text \<open>
  A group is coherent when its blocks all have the type of the block they fuse to, or
  when they are at least two text-like blocks fused to a block of type \<open>text\<close>.
\<close>

definition coherent :: "block list \<Rightarrow> bool" where
  "coherent g =
     ((\<forall>b\<in>set g. type b = type (fuse g))
      \<or> (2 \<le> length g \<and> (\<forall>b\<in>set g. text_like (type b)) \<and> type (fuse g) = ''text''))"

text \<open>A list in which no block can be merged into the one before it.\<close>

fun settled :: "block list \<Rightarrow> bool" where
  "settled [] = True"
| "settled [x] = True"
| "settled (x # y # zs) = (\<not> can_merge x y \<and> settled (y # zs))"

text \<open>
  \<open>follows h c\<close>: \<open>h\<close> has the top edge of \<open>c\<close> and its type, or the type \<open>text\<close>
  where \<open>c\<close> is text-like. It is what \<open>c\<close> can become while later blocks merge into it.
\<close>

definition follows :: "block \<Rightarrow> block \<Rightarrow> bool" where
  "follows h c = (top_key h = top_key c
      \<and> (type h = type c \<or> (text_like (type c) \<and> type h = ''text'')))"

text \<open>
  The tests of \<open>intelligent_merge\<close>: a base block counts as inside a table when its
  containment score exceeds \<open>0.5\<close>, and a handwriting detection as covered by a final
  block when their score exceeds \<open>0.2\<close>.
\<close>

definition contained_in :: "box \<Rightarrow> box \<Rightarrow> bool" where
  "contained_in t_bbox p_bbox =
     (case calculate_intersection t_bbox p_bbox of Inl e \<Rightarrow> False | Inr score \<Rightarrow> 0.5 < score)"

definition iou_exceeds :: "box \<Rightarrow> box \<Rightarrow> bool" where
  "iou_exceeds hw_bbox fb_bbox =
     (case calculate_iou hw_bbox fb_bbox of Inl e \<Rightarrow> False | Inr score \<Rightarrow> 0.2 < score)"

text \<open>The table block that step 1 appends for a detection, and the block of step 3.\<close>

definition table_block_for :: "base_block list \<Rightarrow> detection \<Rightarrow> block" where
  "table_block_for base_blocks t_block =
     \<lparr>type = ''table'', bbox = bbox t_block, action = ''extract_table_logic'',
      content = (let full_table_text =
                       join nl (map text (filter (\<lambda>p. contained_in (bbox t_block) (bbox p))
                                            base_blocks))
                 in if full_table_text \<noteq> [] then full_table_text else ''[EMPTY_TABLE]'')\<rparr>"

definition handwriting_block :: "detection \<Rightarrow> block" where
  "handwriting_block hw =
     \<lparr>type = ''handwriting_region'', bbox = bbox hw,
      action = ''send_to_ocr'', content = ''[HANDWRITING_IMAGE]''\<rparr>"

section \<open>The worker pool (worker\_manager.py, pipeline\_orchasterator.py)\<close>

subsection \<open>Values and strings\<close>

text \<open>
  The values that travel between the pipeline and its workers are what \<open>json.loads\<close>
  returns; Python's \<open>None\<close> is \<open>JNull\<close>. \<open>truthy\<close> is Python's truth value.
\<close>

datatype json =
    JNull
  | JBool bool
  | JNum real
  | JStr string
  | JList "json list"
  | JDict "(string \<times> json) list"

fun truthy :: "json \<Rightarrow> bool" where
  "truthy JNull = False"
| "truthy (JBool b) = b"
| "truthy (JNum x) = (x \<noteq> 0)"
| "truthy (JStr s) = (s \<noteq> [])"
| "truthy (JList xs) = (xs \<noteq> [])"
| "truthy (JDict d) = (d \<noteq> [])"

text \<open>
  A string is a Python \<open>str\<close> in its UTF-8 encoding, byte by byte. Equality,
  emptiness, concatenation and \<open>needle in haystack\<close> are the same on the bytes as on the
  characters. \<open>len\<close> and \<open>strip\<close>, which count and test characters, are not computed
  on the bytes: the pipeline takes them from its environment.
\<close>

fun starts_with :: "string \<Rightarrow> string \<Rightarrow> bool" where
  "starts_with [] s = True"
| "starts_with (c # cs) [] = False"
| "starts_with (c # cs) (d # ds) = (c = d \<and> starts_with cs ds)"

fun is_substring :: "string \<Rightarrow> string \<Rightarrow> bool" where
  "is_substring needle [] = (needle = [])"
| "is_substring needle (c # cs) = (starts_with needle (c # cs) \<or> is_substring needle cs)"

text \<open>\<open>x in v\<close> for a string \<open>x\<close>, and \<open>v.get(k, default)\<close>, on any value.\<close>

fun py_in :: "string \<Rightarrow> json \<Rightarrow> error + bool" where
  "py_in x (JDict d) = Inr (x \<in> fst ` set d)"
| "py_in x (JList xs) = Inr (JStr x \<in> set xs)"
| "py_in x (JStr s) = Inr (is_substring x s)"
| "py_in x JNull = Inl TypeError"
| "py_in x (JBool b) = Inl TypeError"
| "py_in x (JNum n) = Inl TypeError"

fun py_get :: "json \<Rightarrow> string \<Rightarrow> json \<Rightarrow> error + json" where
  "py_get (JDict d) k dflt =
     Inr (case map_of d k of None \<Rightarrow> dflt | Some v \<Rightarrow> v)"
| "py_get JNull k dflt = Inl AttributeError"
| "py_get (JBool b) k dflt = Inl AttributeError"
| "py_get (JNum n) k dflt = Inl AttributeError"
| "py_get (JStr s) k dflt = Inl AttributeError"
| "py_get (JList xs) k dflt = Inl AttributeError"

subsection \<open>Processes and the environment\<close>

text \<open>
  What a call can do: return a value, raise, or never return (a read that blocks for
  ever; the source sets no deadline).
\<close>

datatype 'a outcome = Returns 'a | Raises error | Hangs

text \<open>
  A worker process, seen from its handle. \<open>running\<close> is \<open>poll() is None\<close>. \<open>stdin_ok\<close>
  says that \<open>stdin.write\<close> and \<open>stdin.flush\<close> succeed; otherwise they raise. \<open>received\<close>
  are the lines written to it. \<open>replies\<close> is what \<open>stdout.readline()\<close> will yield, call
  after call: a line, or no answer at all (\<open>Silence\<close>, the read blocks); when the list is
  used up, standard output is at its end and \<open>readline\<close> returns the empty string.
  \<open>heeds_exit\<close> says that the process exits within the grace period once it has been
  sent \<open>EXIT\<close>.
\<close>

datatype reply = Line string | Silence

record process =
  running :: bool
  stdin_ok :: bool
  received :: "string list"
  replies :: "reply list"
  heeds_exit :: bool

text \<open>
  The library calls of the worker pool, taken from the environment: \<open>os.path.exists\<close>,
  \<open>subprocess.Popen\<close> (the process it starts for a script, or the error it raises),
  \<open>json.loads\<close> (\<open>None\<close> where it raises), \<open>json.dumps\<close>, and \<open>str\<close> on a value that
  is not a string.
\<close>

record env =
  path_exists :: "string \<Rightarrow> bool"
  popen :: "string \<Rightarrow> error + process"
  json_loads :: "string \<Rightarrow> json option"
  json_dumps :: "json \<Rightarrow> string"
  repr :: "json \<Rightarrow> string"

fun py_str :: "'a env_scheme \<Rightarrow> json \<Rightarrow> string" where
  "py_str env (JStr s) = s"
| "py_str env JNull = repr env JNull"
| "py_str env (JBool b) = repr env (JBool b)"
| "py_str env (JNum n) = repr env (JNum n)"
| "py_str env (JList xs) = repr env (JList xs)"
| "py_str env (JDict d) = repr env (JDict d)"

subsection \<open>WorkerManager\<close>

text \<open>
  The dictionary \<open>self.workers\<close>, in insertion order, holding each process as it is now.
  A process that \<open>get_worker\<close> replaces has exited and leaves the dictionary.
\<close>

record manager =
  workers :: "(string \<times> process) list"

definition worker_paths :: "(string \<times> string) list" where
  "worker_paths =
     [(''vlm'', ''workers/vlm_worker.py''),
      (''ocr'', ''workers/ocr_worker.py''),
      (''table'', ''workers/table_worker.py''),
      (''audio'', ''workers/audio_worker.py'')]"

text \<open>\<open>d[k] = v\<close> on a dictionary kept in insertion order.\<close>

fun dict_set :: "'k \<Rightarrow> 'v \<Rightarrow> ('k \<times> 'v) list \<Rightarrow> ('k \<times> 'v) list" where
  "dict_set k v [] = [(k, v)]"
| "dict_set k v ((k', v') # kvs) =
     (if k = k' then (k, v) # kvs else (k', v') # dict_set k v kvs)"

text \<open>The second half of \<open>get_worker\<close>: start the worker's script.\<close>

definition start_worker ::
  "'a env_scheme \<Rightarrow> string \<Rightarrow> manager \<Rightarrow> (error + process) \<times> manager" where
  "start_worker env name m =
     (case map_of worker_paths name of
        None \<Rightarrow> (Inl FileNotFoundError, m)
      | Some script_path \<Rightarrow>
          if script_path = [] \<or> \<not> path_exists env script_path
          then (Inl FileNotFoundError, m)
          else (case popen env script_path of
                  Inl e \<Rightarrow> (Inl e, m)
                | Inr process \<Rightarrow>
                    (Inr process, m\<lparr>workers := dict_set name process (workers m)\<rparr>)))"

definition get_worker ::
  "'a env_scheme \<Rightarrow> string \<Rightarrow> manager \<Rightarrow> (error + process) \<times> manager" where
  "get_worker env name m =
     (case map_of (workers m) name of
        None \<Rightarrow> start_worker env name m
      | Some process \<Rightarrow>
          if running process then (Inr process, m) else start_worker env name m)"

text \<open>
  The body of the \<open>try\<close> of \<open>query\<close> (and of \<open>query_worker\<close>): one request, one
  response. Every exception inside it is caught and gives \<open>None\<close>. The result is paired
  with the process as the exchange leaves it.
\<close>

definition exchange ::
  "'a env_scheme \<Rightarrow> json \<Rightarrow> process \<Rightarrow> json outcome \<times> process" where
  "exchange env payload process =
     (let msg = (case payload of
                   JDict d \<Rightarrow> json_dumps env payload
                 | JList xs \<Rightarrow> json_dumps env payload
                 | _ \<Rightarrow> py_str env payload)
      in if \<not> stdin_ok process then (Returns JNull, process)
         else (let written = process\<lparr>received := received process @ [msg @ nl]\<rparr>
               in case replies written of
                    [] \<Rightarrow> (Returns JNull, written)
                  | Silence # rest \<Rightarrow> (Hangs, written)
                  | Line response # rest \<Rightarrow>
                      (if response = [] then Returns JNull
                       else case json_loads env response of
                              None \<Rightarrow> Returns JNull
                            | Some v \<Rightarrow> Returns v,
                       written\<lparr>replies := rest\<rparr>)))"

text \<open>\<open>get_worker\<close> is called before the \<open>try\<close>: what it raises, \<open>query\<close> raises.\<close>

definition query ::
  "'a env_scheme \<Rightarrow> string \<Rightarrow> json \<Rightarrow> manager \<Rightarrow> json outcome \<times> manager" where
  "query env worker_name payload m =
     (case get_worker env worker_name m of
        (Inl e, m1) \<Rightarrow> (Raises e, m1)
      | (Inr process, m1) \<Rightarrow>
          (case exchange env payload process of
             (result, process') \<Rightarrow>
               (result, m1\<lparr>workers := dict_set worker_name process' (workers m1)\<rparr>)))"

text \<open>
  \<open>stop_all\<close>. The loop body writes \<open>EXIT\<close> to a running process, and kills it only when
  the write raises. The dictionary is cleared; the processes, as the loop leaves them,
  are returned beside the manager.
\<close>

definition kill :: "process \<Rightarrow> process" where
  "kill proc = proc\<lparr>running := False\<rparr>"

definition stop_all_body :: "process \<Rightarrow> process" where
  "stop_all_body proc =
     (if running proc
      then (if stdin_ok proc then proc\<lparr>received := received proc @ [''EXIT'' @ nl]\<rparr>
            else kill proc)
      else proc)"

definition stop_all :: "manager \<Rightarrow> manager \<times> process list" where
  "stop_all m = (m\<lparr>workers := []\<rparr>, map (\<lambda>(name, proc). stop_all_body proc) (workers m))"

text \<open>
  What a process left to itself has become when the grace period is over: it has exited
  if it was running, had been sent \<open>EXIT\<close>, and heeds it.
\<close>

definition after_grace :: "process \<Rightarrow> process" where
  "after_grace proc =
     (if running proc \<and> (''EXIT'' @ nl) \<in> set (received proc) \<and> heeds_exit proc
      then proc\<lparr>running := False\<rparr> else proc)"

subsection \<open>PipelineOrchestrator: the four worker handles\<close>

record orchestrator =
  vlm_process :: "process option"
  ocr_process :: "process option"
  table_process :: "process option"
  audio_process :: "process option"

text \<open>
  The loop body of \<open>stop_workers\<close>: write \<open>EXIT\<close>, then \<open>proc.wait(timeout=2)\<close>, which
  returns when the process has exited in time and raises otherwise; any exception leads to
  \<open>proc.kill()\<close>.
\<close>

definition stop_workers_body :: "process \<Rightarrow> process" where
  "stop_workers_body proc =
     (if stdin_ok proc
      then (let sent = proc\<lparr>received := received proc @ [''EXIT'' @ nl]\<rparr>
            in if \<not> running sent \<or> heeds_exit sent then sent\<lparr>running := False\<rparr>
               else kill sent)
      else kill proc)"

definition stop_workers :: "orchestrator \<Rightarrow> orchestrator" where
  "stop_workers orch =
     orch\<lparr>vlm_process := map_option stop_workers_body (vlm_process orch),
          ocr_process := map_option stop_workers_body (ocr_process orch),
          table_process := map_option stop_workers_body (table_process orch),
          audio_process := map_option stop_workers_body (audio_process orch)\<rparr>"


section \<open>The pipeline state machine (workflow.py)\<close>

subsection \<open>State and environment\<close>

text \<open>A page of the layout: the keys \<open>page\<close> and \<open>blocks\<close>.\<close>

record page_data =
  page :: nat
  page_blocks :: "block list"

text \<open>
  The entries of \<open>rag_ready_data\<close>: the transcription of a media file (file name,
  language, duration, segments), the transcript of a YouTube video (file name, URL,
  video id, segments as start, end and text), or a page with its blocks.
\<close>

datatype rag_item =
    Audio_transcription string json json json
  | Youtube_transcript string string string "(real \<times> real \<times> string) list"
  | Page_blocks page_data

text \<open>
  \<open>GraphState\<close>. \<open>None\<close> is a key that has not been written: the graph is invoked with
  \<open>file_path\<close> and \<open>file_id\<close> only, and the router writes \<open>file_type\<close> and \<open>status\<close>
  before anything reads them.
\<close>

record graph_state =
  file_id :: string
  file_path :: string
  file_type :: string
  layout_results :: "page_data list option"
  rag_ready_data :: "rag_item list option"
  status :: string
  error :: "string option"

text \<open>
  What the pipeline takes from outside, beside the worker pool's environment:
  \<open>file_ext\<close> is \<open>os.path.splitext(p)[1].lower()\<close>; \<open>abspath\<close> and \<open>basename\<close> are
  those of \<open>os.path\<close>; \<open>extract_audio\<close> is \<open>extract_audio_from_video\<close>, the path of the
  audio track that ffmpeg wrote or \<open>None\<close>; \<open>video_id\<close> is \<open>get_video_id\<close>, which rests
  on \<open>urlparse\<close>; \<open>fetch_transcript\<close> gives the segments of a video as start, duration
  and text, or the message of the exception; \<open>round2\<close> is \<open>round(x, 2)\<close>;
  \<open>process_file\<close> is the layout engine on a file, its pages or the message of the
  exception; \<open>image_exists\<close> says whether the annotated raster of a page is on disk,
  and \<open>image_opens\<close> whether \<open>Image.open\<close> succeeds on it;
  \<open>crop_save\<close> says whether cropping a box out of the raster and saving it succeeds;
  \<open>temp_path\<close> is the absolute path of the crop, named by a fresh UUID;
  \<open>py_strip\<close> is \<open>str.strip\<close>, which removes the white space of Unicode at both ends,
  and \<open>py_len\<close> is \<open>len\<close> on a \<open>str\<close>, the number of its characters (code points).
  Removing temporary files is not modelled.
\<close>

record wenv = env +
  file_ext :: "string \<Rightarrow> string"
  abspath :: "string \<Rightarrow> string"
  basename :: "string \<Rightarrow> string"
  extract_audio :: "string \<Rightarrow> string option"
  video_id :: "string \<Rightarrow> string option"
  fetch_transcript :: "string \<Rightarrow> string + (real \<times> real \<times> string) list"
  round2 :: "real \<Rightarrow> real"
  process_file :: "string \<Rightarrow> string + page_data list"
  image_exists :: "nat \<Rightarrow> bool"
  image_opens :: "nat \<Rightarrow> bool"
  crop_save :: "box \<Rightarrow> bool"
  temp_path :: "box \<Rightarrow> string"
  py_strip :: "string \<Rightarrow> string"
  py_len :: "string \<Rightarrow> nat"

definition SUPPORTED_AUDIO :: "string list" where
  "SUPPORTED_AUDIO = [''.mp3'', ''.wav'', ''.m4a'', ''.flac'', ''.ogg'', ''.aac'', ''.wma'']"

definition SUPPORTED_VIDEO :: "string list" where
  "SUPPORTED_VIDEO = [''.mp4'', ''.mkv'', ''.mov'', ''.avi'', ''.wmv'', ''.webm'']"

subsection \<open>Routing, media and transcript nodes\<close>

text \<open>A node returns the keys it writes; the model returns the state with them written.\<close>

definition node_router :: "'a wenv_scheme \<Rightarrow> graph_state \<Rightarrow> graph_state" where
  "node_router env state =
     (if is_substring ''youtube.com'' (file_path state)
         \<or> is_substring ''youtu.be'' (file_path state)
      then state\<lparr>file_type := ''youtube'', status := ''routed''\<rparr>
      else if file_ext env (file_path state) \<in> set SUPPORTED_AUDIO
              \<or> file_ext env (file_path state) \<in> set SUPPORTED_VIDEO
      then state\<lparr>file_type := ''media'', status := ''routed''\<rparr>
      else state\<lparr>file_type := ''document'', status := ''routed''\<rparr>)"

definition node_process_youtube :: "'a wenv_scheme \<Rightarrow> graph_state \<Rightarrow> graph_state" where
  "node_process_youtube env state =
     (let video_url = file_path state
      in case video_id env video_url of
           None \<Rightarrow> state\<lparr>error := Some ''Invalid YouTube URL'', status := ''failed''\<rparr>
         | Some vid \<Rightarrow>
             if vid = []
             then state\<lparr>error := Some ''Invalid YouTube URL'', status := ''failed''\<rparr>
             else (case fetch_transcript env vid of
                     Inl msg \<Rightarrow>
                       state\<lparr>error := Some (''Transcript unavailable: '' @ msg),
                             status := ''failed''\<rparr>
                   | Inr transcript \<Rightarrow>
                       state\<lparr>rag_ready_data :=
                               Some [Youtube_transcript (''YouTube_'' @ vid) video_url vid
                                       (map (\<lambda>(start, duration, txt).
                                               (round2 env start,
                                                round2 env (start + duration), txt))
                                            transcript)],
                             status := ''completed''\<rparr>))"

text \<open>
  The audio file that \<open>node_process_media\<close> sends to the transcriber: the file itself,
  or for a video the track extracted from it; \<open>None\<close> when the extraction gave nothing.
\<close>

definition media_target :: "'a wenv_scheme \<Rightarrow> string \<Rightarrow> string option" where
  "media_target env path =
     (if file_ext env path \<in> set SUPPORTED_VIDEO
      then (case extract_audio env path of
              None \<Rightarrow> None
            | Some temp_audio_path \<Rightarrow>
                if temp_audio_path = [] then None else Some temp_audio_path)
      else Some path)"

text \<open>The end of \<open>node_process_media\<close>, from the test of \<open>result\<close> on.\<close>

definition media_result ::
  "'a wenv_scheme \<Rightarrow> graph_state \<Rightarrow> json \<Rightarrow> graph_state outcome" where
  "media_result env state result =
     (let failed = state\<lparr>error := Some (py_str env result), status := ''failed''\<rparr>
      in if \<not> truthy result then Returns failed
         else case py_in ''error'' result of
                Inl e \<Rightarrow> Raises e
              | Inr True \<Rightarrow> Returns failed
              | Inr False \<Rightarrow>
                  (case py_get result ''language'' JNull of
                     Inl e \<Rightarrow> Raises e
                   | Inr language \<Rightarrow>
                       (case py_get result ''duration'' JNull of
                          Inl e \<Rightarrow> Raises e
                        | Inr duration \<Rightarrow>
                            (case py_get result ''blocks'' (JList []) of
                               Inl e \<Rightarrow> Raises e
                             | Inr segments \<Rightarrow>
                                 Returns
                                   (state\<lparr>rag_ready_data :=
                                            Some [Audio_transcription
                                                    (basename env (file_path state))
                                                    language duration segments],
                                          status := ''completed''\<rparr>)))))"

definition node_process_media ::
  "'a wenv_scheme \<Rightarrow> graph_state \<Rightarrow> manager \<Rightarrow> graph_state outcome \<times> manager" where
  "node_process_media env state m =
     (case media_target env (file_path state) of
        None \<Rightarrow>
          (Returns (state\<lparr>error := Some ''Video extraction failed'', status := ''failed''\<rparr>), m)
      | Some target_path \<Rightarrow>
          (case query env ''audio'' (JStr (abspath env target_path)) m of
             (Raises e, m1) \<Rightarrow> (Raises e, m1)
           | (Hangs, m1) \<Rightarrow> (Hangs, m1)
           | (Returns result, m1) \<Rightarrow> (media_result env state result, m1)))"

definition node_analyze_layout :: "'a wenv_scheme \<Rightarrow> graph_state \<Rightarrow> graph_state" where
  "node_analyze_layout env state =
     (case process_file env (file_path state) of
        Inr results \<Rightarrow> state\<lparr>layout_results := Some results, status := ''analyzed''\<rparr>
      | Inl msg \<Rightarrow> state\<lparr>error := Some msg, status := ''failed''\<rparr>)"

subsection \<open>Enrichment\<close>

text \<open>
  The body of the block loop is the same in \<open>node_enrich_content\<close> and in
  \<open>run_workers_on_blocks\<close>, up to the call that reaches a worker; the model takes that
  call as the parameter \<open>q\<close>, over the state \<open>w\<close> of whoever owns the workers.
  Exceptions inside the \<open>try\<close> are caught and leave the block as it is.
\<close>

text \<open>\<open>"\n".join([item['text'] for item in ocr_results])\<close>.\<close>

fun item_text :: "json \<Rightarrow> error + string" where
  "item_text (JDict d) =
     (case map_of d ''text'' of
        None \<Rightarrow> Inl KeyError
      | Some (JStr s) \<Rightarrow> Inr s
      | Some _ \<Rightarrow> Inl TypeError)"
| "item_text JNull = Inl TypeError"
| "item_text (JBool b) = Inl TypeError"
| "item_text (JNum n) = Inl TypeError"
| "item_text (JStr s) = Inl TypeError"
| "item_text (JList xs) = Inl TypeError"

fun item_texts :: "json list \<Rightarrow> error + string list" where
  "item_texts [] = Inr []"
| "item_texts (item # items) =
     (case item_text item of
        Inl e \<Rightarrow> Inl e
      | Inr t \<Rightarrow> (case item_texts items of Inl e \<Rightarrow> Inl e | Inr ts \<Rightarrow> Inr (t # ts)))"

text \<open>The fallback of the table arm: text recognition on the same crop.\<close>

definition table_fallback_ocr ::
  "(string \<Rightarrow> json \<Rightarrow> 'w \<Rightarrow> json outcome \<times> 'w) \<Rightarrow> 'a wenv_scheme \<Rightarrow> block \<Rightarrow> 'w
     \<Rightarrow> block outcome \<times> 'w" where
  "table_fallback_ocr q env block w =
     (case q ''ocr'' (JStr (temp_path env (bbox block))) w of
        (Hangs, w1) \<Rightarrow> (Hangs, w1)
      | (Raises e, w1) \<Rightarrow> (Returns block, w1)
      | (Returns ocr_results, w1) \<Rightarrow>
          (case ocr_results of
             JList items \<Rightarrow>
               (case item_texts items of
                  Inl e \<Rightarrow> (Returns block, w1)
                | Inr texts \<Rightarrow>
                    (let detected_text = join nl texts
                     in (Returns (block\<lparr>content := (if py_strip env detected_text \<noteq> []
                                                      then detected_text
                                                      else ''[NO_TEXT_FOUND]''),
                                        action := ''table_fallback_ocr''\<rparr>), w1)))
           | _ \<Rightarrow> (Returns block, w1)))"

text \<open>
  A. The table arm. The content of a block is a string in the model; where the worker's
  \<open>markdown\<close> is a list or an object, the model keeps its \<open>str\<close>.
\<close>

definition table_arm ::
  "(string \<Rightarrow> json \<Rightarrow> 'w \<Rightarrow> json outcome \<times> 'w) \<Rightarrow> 'a wenv_scheme \<Rightarrow> block \<Rightarrow> 'w
     \<Rightarrow> block outcome \<times> 'w" where
  "table_arm q env block w =
     (let is_empty = (py_strip env (content block) = []);
          is_binary = is_substring ''[IMAGE_BINARY]'' (content block)
      in if is_empty \<or> is_binary
         then (if \<not> crop_save env (bbox block) then (Returns block, w)
               else case q ''table'' (JStr (temp_path env (bbox block))) w of
                      (Hangs, w1) \<Rightarrow> (Hangs, w1)
                    | (Raises e, w1) \<Rightarrow> (Returns block, w1)
                    | (Returns result, w1) \<Rightarrow>
                        (case (if truthy result then py_get result ''markdown'' (JStr [])
                               else Inr (JStr [])) of
                           Inl e \<Rightarrow> (Returns block, w1)
                         | Inr markdown \<Rightarrow>
                             if truthy markdown
                             then (case py_in ''[TABLE_'' markdown of
                                     Inl e \<Rightarrow> (Returns block, w1)
                                   | Inr found \<Rightarrow>
                                       if \<not> found
                                       then (Returns
                                               (block\<lparr>content := py_str env markdown,
                                                      action := ''local_table_reconstructed''\<rparr>),
                                             w1)
                                       else table_fallback_ocr q env block w1)
                             else table_fallback_ocr q env block w1))
         else (Returns block, w))"

text \<open>B. The image arm.\<close>

definition vlm_arm ::
  "(string \<Rightarrow> json \<Rightarrow> 'w \<Rightarrow> json outcome \<times> 'w) \<Rightarrow> 'a wenv_scheme \<Rightarrow> block \<Rightarrow> 'w
     \<Rightarrow> block outcome \<times> 'w" where
  "vlm_arm q env block w =
     (if \<not> crop_save env (bbox block) then (Returns block, w)
      else case q ''vlm'' (JStr (temp_path env (bbox block))) w of
             (Hangs, w1) \<Rightarrow> (Hangs, w1)
           | (Raises e, w1) \<Rightarrow> (Returns block, w1)
           | (Returns result, w1) \<Rightarrow>
               (case result of
                  JDict d \<Rightarrow>
                    (Returns
                       (block\<lparr>content :=
                                ''[IMAGE_DESCRIPTION]'' @ nl @
                                py_str env (case map_of d ''description'' of
                                              None \<Rightarrow> JStr []
                                            | Some v \<Rightarrow> v),
                              action := ''vlm_described''\<rparr>), w1)
                | _ \<Rightarrow> (Returns block, w1)))"

text \<open>C. The text recognition arm.\<close>

definition ocr_arm ::
  "(string \<Rightarrow> json \<Rightarrow> 'w \<Rightarrow> json outcome \<times> 'w) \<Rightarrow> 'a wenv_scheme \<Rightarrow> block \<Rightarrow> 'w
     \<Rightarrow> block outcome \<times> 'w" where
  "ocr_arm q env block w =
     (if \<not> crop_save env (bbox block) then (Returns block, w)
      else case q ''ocr'' (JStr (temp_path env (bbox block))) w of
             (Hangs, w1) \<Rightarrow> (Hangs, w1)
           | (Raises e, w1) \<Rightarrow> (Returns block, w1)
           | (Returns ocr_results, w1) \<Rightarrow>
               (case ocr_results of
                  JList items \<Rightarrow>
                    (case item_texts items of
                       Inl e \<Rightarrow> (Returns block, w1)
                     | Inr texts \<Rightarrow>
                         (let detected_text = join nl texts
                          in if py_strip env detected_text \<noteq> []
                             then (Returns (block\<lparr>content := detected_text,
                                                  action := ''ocr_extracted''\<rparr>), w1)
                             else (Returns (block\<lparr>content := ''[OCR_NO_TEXT_FOUND]''\<rparr>), w1)))
                | _ \<Rightarrow> (Returns block, w1)))"

text \<open>One pass of the block loop.\<close>

definition enrich_block ::
  "(string \<Rightarrow> json \<Rightarrow> 'w \<Rightarrow> json outcome \<times> 'w) \<Rightarrow> 'a wenv_scheme \<Rightarrow> block \<Rightarrow> 'w
     \<Rightarrow> block outcome \<times> 'w" where
  "enrich_block q env block w =
     (if box_x1 (bbox block) \<le> box_x0 (bbox block)
         \<or> box_y1 (bbox block) \<le> box_y0 (bbox block)
      then (Returns block, w)
      else if type block = ''table'' then table_arm q env block w
      else if action block = ''crop_image'' \<and> type block = ''image'' then vlm_arm q env block w
      else if action block = ''send_to_ocr'' then ocr_arm q env block w
      else (Returns block, w))"

fun enrich_blocks ::
  "(string \<Rightarrow> json \<Rightarrow> 'w \<Rightarrow> json outcome \<times> 'w) \<Rightarrow> 'a wenv_scheme \<Rightarrow> block list \<Rightarrow> 'w
     \<Rightarrow> block list outcome \<times> 'w" where
  "enrich_blocks q env [] w = (Returns [], w)"
| "enrich_blocks q env (block # rest) w =
     (case enrich_block q env block w of
        (Hangs, w1) \<Rightarrow> (Hangs, w1)
      | (Raises e, w1) \<Rightarrow> (Raises e, w1)
      | (Returns block', w1) \<Rightarrow>
          (case enrich_blocks q env rest w1 of
             (Hangs, w2) \<Rightarrow> (Hangs, w2)
           | (Raises e, w2) \<Rightarrow> (Raises e, w2)
           | (Returns rest', w2) \<Rightarrow> (Returns (block' # rest'), w2)))"

text \<open>The low-signal filter that builds \<open>cleaned_blocks\<close>.\<close>

definition low_signal :: "'a wenv_scheme \<Rightarrow> block \<Rightarrow> bool" where
  "low_signal env b =
     (type b \<in> set [''text'', ''title'']
      \<and> (content b = [] \<or> py_len env (py_strip env (content b)) < 2))"

text \<open>
  The page loop of \<open>node_enrich_content\<close>: a page whose raster is missing is skipped as
  a whole; \<open>Image.open\<close> stands outside any \<open>try\<close>. The source appends each page to
  \<open>final_pages\<close>; the recursion builds the same list from the front.
\<close>

fun enrich_pages ::
  "'a wenv_scheme \<Rightarrow> page_data list \<Rightarrow> manager \<Rightarrow> page_data list outcome \<times> manager" where
  "enrich_pages env [] m = (Returns [], m)"
| "enrich_pages env (pd # rest) m =
     (let cleaned_blocks = filter (\<lambda>b. \<not> low_signal env b) (page_blocks pd)
      in if image_exists env (page pd)
         then (if \<not> image_opens env (page pd) then (Raises OSError, m)
               else case enrich_blocks (query env) env cleaned_blocks m of
                      (Hangs, m1) \<Rightarrow> (Hangs, m1)
                    | (Raises e, m1) \<Rightarrow> (Raises e, m1)
                    | (Returns blocks', m1) \<Rightarrow>
                        (case enrich_pages env rest m1 of
                           (Hangs, m2) \<Rightarrow> (Hangs, m2)
                         | (Raises e, m2) \<Rightarrow> (Raises e, m2)
                         | (Returns final_pages, m2) \<Rightarrow>
                             (Returns (\<lparr>page = page pd, page_blocks = blocks'\<rparr> # final_pages),
                              m2)))
         else enrich_pages env rest m)"

definition node_enrich_content ::
  "'a wenv_scheme \<Rightarrow> graph_state \<Rightarrow> manager \<Rightarrow> graph_state outcome \<times> manager" where
  "node_enrich_content env state m =
     (case layout_results state of
        None \<Rightarrow> (Raises KeyError, m)
      | Some layout_data \<Rightarrow>
          (case enrich_pages env layout_data m of
             (Hangs, m1) \<Rightarrow> (Hangs, m1)
           | (Raises e, m1) \<Rightarrow> (Raises e, m1)
           | (Returns final_pages, m1) \<Rightarrow>
               (Returns (state\<lparr>rag_ready_data := Some (map Page_blocks final_pages),
                               status := ''completed''\<rparr>), m1)))"



subsection \<open>The graph\<close>

datatype node = Router | Process_media | Process_youtube | Analyze_layout | Enrich_content

datatype route = END | To_process_youtube | To_process_media | To_analyze_layout

definition route_next_step :: "graph_state \<Rightarrow> route" where
  "route_next_step state =
     (if status state = ''failed'' then END
      else if file_type state = ''youtube'' then To_process_youtube
      else if file_type state = ''media'' then To_process_media
      else To_analyze_layout)"

text \<open>
  \<open>app_workflow.invoke\<close>: the router, the conditional edge, and the fixed edges
  \<open>process_media \<rightarrow> END\<close>, \<open>process_youtube \<rightarrow> END\<close>,
  \<open>analyze_layout \<rightarrow> enrich_content \<rightarrow> END\<close>. The result is the final state, or the
  exception that ends the run, with the nodes that ran.
\<close>

definition app_workflow_invoke ::
  "'a wenv_scheme \<Rightarrow> graph_state \<Rightarrow> manager
     \<Rightarrow> (graph_state outcome \<times> node list) \<times> manager" where
  "app_workflow_invoke env state m =
     (let routed = node_router env state
      in case route_next_step routed of
           END \<Rightarrow> ((Returns routed, [Router]), m)
         | To_process_youtube \<Rightarrow>
             ((Returns (node_process_youtube env routed), [Router, Process_youtube]), m)
         | To_process_media \<Rightarrow>
             (case node_process_media env routed m of
                (result, m1) \<Rightarrow> ((result, [Router, Process_media]), m1))
         | To_analyze_layout \<Rightarrow>
             (case node_enrich_content env (node_analyze_layout env routed) m of
                (result, m1) \<Rightarrow> ((result, [Router, Analyze_layout, Enrich_content]), m1)))"

section \<open>Example environments, processes and states\<close>

text \<open>
  Concrete values at which the theorems below are evaluated. \<open>demo_loads\<close> stands for
  \<open>json.loads\<close> on four lines: the transcriber's error, a transcript, a list of
  recognised text, and a line that is not JSON.
\<close>

definition demo_loads :: "string \<Rightarrow> json option" where
  "demo_loads s =
     (if s = ''error line'' then Some (JDict [(''error'', JStr ''decode failed'')])
      else if s = ''transcript line''
      then Some (JDict [(''language'', JStr ''ar''), (''duration'', JNum 12),
                        (''blocks'', JList [])])
      else if s = ''text line'' then Some (JList [JDict [(''text'', JStr ''hi'')]])
      else None)"

definition demo_repr :: "json \<Rightarrow> string" where
  "demo_repr v = (case v of JNull \<Rightarrow> ''None'' | _ \<Rightarrow> ''<repr>'')"

text \<open>
  \<open>str.strip\<close> and \<open>len\<close> for the examples, whose strings are ASCII: the white space
  of ASCII is removed at both ends, and every byte is a character.
\<close>

definition ascii_isspace :: "char \<Rightarrow> bool" where
  "ascii_isspace c = (c \<in> set [CHR 0x20, CHR 0x09, CHR 0x0A, CHR 0x0B, CHR 0x0C, CHR 0x0D,
                                 CHR 0x1C, CHR 0x1D, CHR 0x1E, CHR 0x1F])"

definition ascii_strip :: "string \<Rightarrow> string" where
  "ascii_strip s = rev (dropWhile ascii_isspace (rev (dropWhile ascii_isspace s)))"

definition worker_with :: "reply list \<Rightarrow> process" where
  "worker_with rs =
     \<lparr>running = True, stdin_ok = True, received = [], replies = rs, heeds_exit = True\<rparr>"

text \<open>An environment in which every script exists and starts a worker that says nothing more.\<close>

definition demo_env :: wenv where
  "demo_env =
     \<lparr>path_exists = (\<lambda>p. True),
      popen = (\<lambda>p. Inr (worker_with [])),
      json_loads = demo_loads,
      json_dumps = (\<lambda>v. ''[]''),
      repr = demo_repr,
      file_ext = (\<lambda>p. ''.mp3''),
      abspath = (\<lambda>p. p),
      basename = (\<lambda>p. p),
      extract_audio = (\<lambda>p. None),
      video_id = (\<lambda>p. None),
      fetch_transcript = (\<lambda>v. Inl ''no transcript''),
      round2 = (\<lambda>x. x),
      process_file = (\<lambda>p. Inr []),
      image_exists = (\<lambda>n. True),
      image_opens = (\<lambda>n. True),
      crop_save = (\<lambda>b. True),
      temp_path = (\<lambda>b. ''temp_worker.jpg''),
      py_strip = ascii_strip,
      py_len = length\<rparr>"

text \<open>The same, except that a started worker answers its first request with recognised text.\<close>

definition restart_env :: wenv where
  "restart_env = demo_env\<lparr>popen := (\<lambda>p. Inr (worker_with [Line ''text line'']))\<rparr>"


text \<open>An environment in which no worker script is found.\<close>

definition no_scripts_env :: env where
  "no_scripts_env =
     \<lparr>path_exists = (\<lambda>p. False),
      popen = (\<lambda>p. Inl OSError),
      json_loads = demo_loads,
      json_dumps = (\<lambda>v. ''[]''),
      repr = demo_repr\<rparr>"

text \<open>A worker that reads nothing more from its input and never answers.\<close>

definition stuck_worker :: process where
  "stuck_worker =
     \<lparr>running = True, stdin_ok = True, received = [], replies = [Silence],
      heeds_exit = False\<rparr>"

definition demo_state :: graph_state where
  "demo_state =
     \<lparr>file_id = ''f1'', file_path = ''talk.mp3'', file_type = [],
      layout_results = None, rag_ready_data = None, status = [], error = None\<rparr>"



section \<open>Vocabulary for the enrichment stage\<close>



section \<open>Geometry: facts\<close>

lemma inter_area_nonneg: "0 \<le> inter_area a b"
  by (cases a; cases b) simp

lemma inter_area_commute: "inter_area a b = inter_area b a"
  by (cases a; cases b) (simp add: max.commute min.commute)

lemma inter_area_le_proper:
  assumes "proper_box b"
  shows "inter_area a b \<le> box_area b"
proof -
  obtain a0 a1 a2 a3 where a: "a = (a0, a1, a2, a3)" by (cases a)
  obtain b0 b1 b2 b3 where b: "b = (b0, b1, b2, b3)" by (cases b)
  from assms b have w: "b0 < b2" and h: "b1 < b3" by simp_all
  have "max 0 (min a2 b2 - max a0 b0) \<le> b2 - b0" using w by auto
  moreover have "max 0 (min a3 b3 - max a1 b1) \<le> b3 - b1" using h by auto
  moreover have "0 \<le> b2 - b0" using w by simp
  moreover have "0 \<le> max 0 (min a3 b3 - max a1 b1)" by simp
  ultimately have "max 0 (min a2 b2 - max a0 b0) * max 0 (min a3 b3 - max a1 b1)
      \<le> (b2 - b0) * (b3 - b1)"
    by (rule mult_mono)
  then show ?thesis by (simp add: a b)
qed

lemma inter_area_degenerate_right:
  assumes "degenerate b"
  shows "inter_area a b = 0"
proof -
  obtain a0 a1 a2 a3 where a: "a = (a0, a1, a2, a3)" by (cases a)
  obtain b0 b1 b2 b3 where b: "b = (b0, b1, b2, b3)" by (cases b)
  from assms b have "b2 \<le> b0 \<or> b3 \<le> b1" by simp
  then have "max 0 (min a2 b2 - max a0 b0) = 0 \<or> max 0 (min a3 b3 - max a1 b1) = 0"
    by auto
  then show ?thesis by (auto simp: a b)
qed

lemma inter_area_degenerate_left: "degenerate a \<Longrightarrow> inter_area a b = 0"
  using inter_area_degenerate_right [of a b] by (simp add: inter_area_commute)

lemma inter_area_self: "proper_box a \<Longrightarrow> inter_area a a = box_area a"
  by (cases a) (simp add: max_def)

lemma inter_area_not_overlapping: "\<not> overlapping a b \<Longrightarrow> inter_area a b = 0"
  by (cases a; cases b) (auto simp: max_def)

lemma box_area_zero_degenerate: "box_area a = 0 \<Longrightarrow> degenerate a"
  by (cases a) auto

text \<open>What the two functions compute, in the vocabulary above.\<close>

lemma calculate_iou_value:
  "calculate_iou a b =
     Inr (if min (box_area a) (box_area b) = 0 then 0
          else inter_area a b / min (box_area a) (box_area b))"
  by (cases a; cases b) (simp add: truediv_def Let_def)

lemma calculate_intersection_value:
  "calculate_intersection a b =
     Inr (if box_area b = 0 then 0 else inter_area a b / box_area b)"
  by (cases a; cases b) (simp add: truediv_def Let_def)

section \<open>The merge engine: facts\<close>

lemma merge_loop_step:
  "merge_loop c (n # rest) acc =
     (if can_merge c n then merge_loop (merged_block c n) rest acc
      else merge_loop n rest (acc @ [c]))"
  by (auto simp: can_merge_def merged_block_def text_like_def Let_def)

declare merge_loop.simps(2) [simp del]

lemma merge_loop_acc: "merge_loop c rest acc = acc @ merge_loop c rest []"
proof (induction rest arbitrary: c acc)
  case Nil
  show ?case by simp
next
  case (Cons n rest)
  show ?case
  proof (cases "can_merge c n")
    case True
    then show ?thesis
      using Cons.IH [of "merged_block c n" acc] by (simp only: merge_loop_step if_True)
  next
    case False
    then show ?thesis
      using Cons.IH [of n "acc @ [c]"] Cons.IH [of n "[c]"]
      by (simp only: merge_loop_step if_False append_Nil append_assoc)
  qed
qed

lemma merge_loop_unfold:
  "merge_loop c (n # rest) [] =
     (if can_merge c n then merge_loop (merged_block c n) rest []
      else c # merge_loop n rest [])"
  using merge_loop_acc [of n rest "[c]"] by (simp only: merge_loop_step append_Nil append_Cons)

lemma fuse_snoc: "g \<noteq> [] \<Longrightarrow> fuse (g @ [n]) = merged_block (fuse g) n"
  by (cases g) (simp_all add: fuse_def)

lemma fuse_single: "fuse [b] = b"
  by (simp add: fuse_def)

lemma merge_loop_groups:
  "ms \<noteq> [] \<Longrightarrow> c = fuse ms \<Longrightarrow>
     merge_loop c rest [] = map fuse (group_loop c ms rest)"
proof (induction rest arbitrary: c ms)
  case Nil
  then show ?case by simp
next
  case (Cons n rest)
  show ?case
  proof (cases "can_merge c n")
    case True
    have "merge_loop (merged_block c n) rest [] =
            map fuse (group_loop (merged_block c n) (ms @ [n]) rest)"
      using Cons.prems by (intro Cons.IH) (simp_all add: fuse_snoc)
    with True show ?thesis by (simp add: merge_loop_unfold)
  next
    case False
    have "merge_loop n rest [] = map fuse (group_loop n [n] rest)"
      by (intro Cons.IH) (simp_all add: fuse_single)
    with False Cons.prems show ?thesis by (simp add: merge_loop_unfold)
  qed
qed

lemma concat_group_loop: "concat (group_loop c ms rest) = ms @ rest"
  by (induction rest arbitrary: c ms) simp_all

lemma group_loop_nonempty: "ms \<noteq> [] \<Longrightarrow> [] \<notin> set (group_loop c ms rest)"
  by (induction rest arbitrary: c ms) auto

lemma coherent_single: "coherent [b]"
  by (simp add: coherent_def fuse_single)

lemma coherent_snoc:
  assumes "ms \<noteq> []" "coherent ms" "can_merge (fuse ms) n"
  shows "coherent (ms @ [n])"
proof (cases "text_like (type (fuse ms)) \<and> text_like (type n)")
  case True
  from assms(2) True have "\<forall>b\<in>set ms. text_like (type b)"
    by (auto simp: coherent_def)
  moreover have "type (fuse (ms @ [n])) = ''text''"
    using True assms(1) by (simp add: fuse_snoc merged_block_def)
  moreover have "2 \<le> length (ms @ [n])" using assms(1) by (cases ms) simp_all
  ultimately show ?thesis using True by (simp add: coherent_def)
next
  case False
  with assms(3) have same: "type (fuse ms) = type n" by (simp add: can_merge_def)
  have t: "type (fuse (ms @ [n])) = type (fuse ms)"
    using False assms(1) by (auto simp: fuse_snoc merged_block_def)
  from assms(2) False same have "\<forall>b\<in>set ms. type b = type (fuse ms)"
    by (auto simp: coherent_def text_like_def)
  with same t show ?thesis by (simp add: coherent_def)
qed

lemma group_loop_coherent:
  "ms \<noteq> [] \<Longrightarrow> c = fuse ms \<Longrightarrow> coherent ms \<Longrightarrow> \<forall>g\<in>set (group_loop c ms rest). coherent g"
proof (induction rest arbitrary: c ms)
  case Nil
  then show ?case by simp
next
  case (Cons n rest)
  show ?case
  proof (cases "can_merge c n")
    case True
    have "\<forall>g\<in>set (group_loop (merged_block c n) (ms @ [n]) rest). coherent g"
      using Cons.prems True by (intro Cons.IH) (simp_all add: fuse_snoc coherent_snoc)
    with True show ?thesis by simp
  next
    case False
    have "\<forall>g\<in>set (group_loop n [n] rest). coherent g"
      by (intro Cons.IH) (simp_all add: fuse_single coherent_single)
    with False Cons.prems show ?thesis by simp
  qed
qed

lemma follows_refl: "follows c c"
  by (simp add: follows_def)

lemma top_key_merged: "top_key (merged_block c n) = min (top_key c) (top_key n)"
  by (simp add: merged_block_def)

lemma follows_merged:
  assumes "top_key c \<le> top_key n" "can_merge c n" "follows h (merged_block c n)"
  shows "follows h c"
proof -
  have k: "top_key h = top_key c"
    using assms(1,3) by (simp add: follows_def top_key_merged)
  show ?thesis
  proof (cases "text_like (type c) \<and> text_like (type n)")
    case True
    then have "type (merged_block c n) = ''text''" by (simp add: merged_block_def)
    with assms(3) have "type h = ''text''" by (auto simp: follows_def)
    with True k show ?thesis by (simp add: follows_def)
  next
    case False
    then have "type (merged_block c n) = type c" by (auto simp: merged_block_def)
    with assms(3) k show ?thesis by (simp add: follows_def)
  qed
qed

lemma can_merge_follows: "follows h n \<Longrightarrow> can_merge c h = can_merge c n"
  by (auto simp: follows_def can_merge_def text_like_def)

lemma merge_loop_shape:
  "sorted (map top_key (c # rest)) \<Longrightarrow>
     \<exists>h t. merge_loop c rest [] = h # t \<and> follows h c \<and> settled (h # t)
            \<and> sorted (map top_key (h # t))"
proof (induction rest arbitrary: c)
  case Nil
  then show ?case by (simp add: follows_refl)
next
  case (Cons n rest)
  from Cons.prems have cn: "top_key c \<le> top_key n"
    and srt: "sorted (map top_key (n # rest))" by simp_all
  show ?case
  proof (cases "can_merge c n")
    case True
    have "sorted (map top_key (merged_block c n # rest))"
      using Cons.prems by (simp add: top_key_merged)
    from Cons.IH [OF this] obtain h t where
      ht: "merge_loop (merged_block c n) rest [] = h # t"
      and f: "follows h (merged_block c n)"
      and s: "settled (h # t)" "sorted (map top_key (h # t))" by blast
    from follows_merged [OF cn True f] have "follows h c" .
    with ht s True show ?thesis by (simp add: merge_loop_unfold)
  next
    case False
    from Cons.IH [OF srt] obtain h t where
      ht: "merge_loop n rest [] = h # t"
      and f: "follows h n"
      and s: "settled (h # t)" "sorted (map top_key (h # t))" by blast
    from f False have nm: "\<not> can_merge c h" by (simp add: can_merge_follows)
    from f cn have "top_key c \<le> top_key h" by (simp add: follows_def)
    with s(2) have "sorted (map top_key (c # h # t))" by auto
    with ht s(1) nm False show ?thesis
      by (simp add: merge_loop_unfold follows_refl)
  qed
qed

lemma merge_loop_settled: "settled (c # rest) \<Longrightarrow> merge_loop c rest [] = c # rest"
  by (induction rest arbitrary: c) (simp_all add: merge_loop_unfold)

lemma merge_consecutive_blocks_shape:
  "merge_consecutive_blocks blocks = out \<Longrightarrow>
     settled out \<and> sorted (map top_key out)"
proof (cases "blocks = []")
  case True
  assume "merge_consecutive_blocks blocks = out"
  with True show ?thesis by (simp add: merge_consecutive_blocks_def)
next
  case False
  assume out: "merge_consecutive_blocks blocks = out"
  from False have "sort_key top_key blocks \<noteq> []"
    by (metis length_0_conv length_sort)
  then obtain c rest where cr: "sort_key top_key blocks = c # rest"
    by (cases "sort_key top_key blocks") auto
  have "sorted (map top_key (sort_key top_key blocks))" by (rule sorted_sort_key)
  with cr have "sorted (map top_key (c # rest))" by simp
  from merge_loop_shape [OF this] obtain h t where
    "merge_loop c rest [] = h # t" "settled (h # t)" "sorted (map top_key (h # t))"
    by blast
  with out False cr show ?thesis by (simp add: merge_consecutive_blocks_def)
qed

lemma merge_consecutive_blocks_fixed:
  assumes "settled out" "sorted (map top_key out)"
  shows "merge_consecutive_blocks out = out"
proof (cases out)
  case Nil
  then show ?thesis by (simp add: merge_consecutive_blocks_def)
next
  case (Cons h t)
  from assms(2) have "sort_key top_key out = out" by (rule sort_key_id_if_sorted)
  with Cons assms(1) show ?thesis
    by (simp add: merge_consecutive_blocks_def merge_loop_settled)
qed

lemma merge_consecutive_blocks_groups:
  "merge_consecutive_blocks blocks = map fuse (merge_groups blocks)"
proof (cases "sort_key top_key blocks")
  case Nil
  then show ?thesis by (simp add: merge_consecutive_blocks_def merge_groups_def)
next
  case (Cons c rest)
  have "merge_loop c rest [] = map fuse (group_loop c [c] rest)"
    by (rule merge_loop_groups) (simp_all add: fuse_single)
  with Cons show ?thesis by (simp add: merge_consecutive_blocks_def merge_groups_def)
qed

lemma concat_merge_groups: "concat (merge_groups blocks) = sort_key top_key blocks"
proof (cases "sort_key top_key blocks")
  case Nil
  then show ?thesis by (simp add: merge_groups_def)
next
  case (Cons c rest)
  then have "blocks \<noteq> []" by auto
  with Cons show ?thesis by (simp add: merge_groups_def concat_group_loop)
qed

lemma merge_groups_nonempty: "[] \<notin> set (merge_groups blocks)"
  by (cases "sort_key top_key blocks")
     (simp_all add: merge_groups_def group_loop_nonempty)

lemma merge_groups_coherent: "g \<in> set (merge_groups blocks) \<Longrightarrow> coherent g"
proof (cases "sort_key top_key blocks")
  case Nil
  assume "g \<in> set (merge_groups blocks)"
  with Nil show ?thesis by (simp add: merge_groups_def split: if_splits)
next
  case (Cons c rest)
  assume g: "g \<in> set (merge_groups blocks)"
  have "\<forall>g\<in>set (group_loop c [c] rest). coherent g"
    by (rule group_loop_coherent) (simp_all add: fuse_single coherent_single)
  with g Cons show ?thesis by (simp add: merge_groups_def split: if_splits)
qed

lemma join_snoc: "xs \<noteq> [] \<Longrightarrow> join sep (xs @ [x]) = join sep xs @ sep @ x"
  by (induction sep xs rule: join.induct) simp_all

lemma content_fuse: "g \<noteq> [] \<Longrightarrow> content (fuse g) = join nl (map content g)"
proof (induction g rule: rev_induct)
  case Nil
  then show ?case by simp
next
  case (snoc n g)
  show ?case
  proof (cases "g = []")
    case True
    then show ?thesis by (simp add: fuse_single)
  next
    case False
    with snoc.IH have "content (fuse g) = join nl (map content g)" by simp
    with False show ?thesis
      by (simp add: fuse_snoc merged_block_def join_snoc)
  qed
qed

lemma calculate_intersection_total: "\<exists>score. calculate_intersection a b = Inr score"
  by (simp add: calculate_intersection_value)

lemma calculate_iou_total: "\<exists>score. calculate_iou a b = Inr score"
  by (simp add: calculate_iou_value)

lemma table_scan_result:
  "\<exists>consumed'. table_scan t ps acc consumed =
      Inr (acc @ map text (filter (\<lambda>p. contained_in t (bbox p)) (map snd ps)), consumed')"
proof (induction ps arbitrary: acc consumed)
  case Nil
  then show ?case by simp
next
  case (Cons ip ps)
  obtain idx p where ip: "ip = (idx, p)" by (cases ip)
  obtain score where s: "calculate_intersection t (bbox p) = Inr score"
    using calculate_intersection_total by blast
  show ?case
  proof (cases "0.5 < score")
    case True
    with s have "contained_in t (bbox p)" by (simp add: contained_in_def)
    with True s ip Cons.IH [of "acc @ [text p]" "insert idx consumed"] show ?thesis
      by simp
  next
    case False
    with s have "\<not> contained_in t (bbox p)" by (simp add: contained_in_def)
    with False s ip Cons.IH [of acc consumed] show ?thesis by simp
  qed
qed

lemma map_snd_enumerate: "map snd (enumerate k xs) = xs"
  by (simp add: enumerate_eq_zip)

lemma process_tables_result:
  "\<exists>consumed'. process_tables base ts final consumed =
      Inr (final @ map (table_block_for base) ts, consumed')"
proof (induction ts arbitrary: final consumed)
  case Nil
  then show ?case by simp
next
  case (Cons t ts)
  from table_scan_result [of "bbox t" "enumerate 0 base" "[]" consumed]
  obtain c1 where
    sc: "table_scan (bbox t) (enumerate 0 base) [] consumed =
           Inr (map text (filter (\<lambda>p. contained_in (bbox t) (bbox p)) base), c1)"
    by (auto simp: map_snd_enumerate)
  let ?tb = "table_block_for base t"
  from Cons.IH [of "final @ [?tb]" c1] obtain c2 where
    "process_tables base ts (final @ [?tb]) c1 =
       Inr ((final @ [?tb]) @ map (table_block_for base) ts, c2)" by blast
  with sc show ?case by (simp add: table_block_for_def Let_def)
qed

lemma process_remaining_prefix:
  "\<exists>extra. process_remaining ps consumed final = final @ extra"
proof (induction ps arbitrary: final)
  case Nil
  then show ?case by simp
next
  case (Cons ip ps)
  obtain idx p where ip: "ip = (idx, p)" by (cases ip)
  show ?case
  proof (cases "idx \<in> consumed")
    case True
    with ip Cons.IH [of final] show ?thesis by simp
  next
    case False
    let ?b = "\<lparr>type = type p, bbox = bbox p,
               action = (if type p = ''image'' then ''crop_image'' else ''extract_text''),
               content = text p\<rparr>"
    from Cons.IH [of "final @ [?b]"] obtain extra where
      "process_remaining ps consumed (final @ [?b]) = (final @ [?b]) @ extra" by blast
    with False ip show ?thesis by simp
  qed
qed

lemma is_isolated_result:
  "is_isolated hb fbs = Inr (\<not> (\<exists>fb\<in>set fbs. iou_exceeds hb (bbox fb)))"
proof (induction fbs)
  case Nil
  then show ?case by simp
next
  case (Cons fb fbs)
  obtain score where s: "calculate_iou hb (bbox fb) = Inr score"
    using calculate_iou_total by blast
  with Cons.IH show ?case by (simp add: iou_exceeds_def)
qed

lemma handwriting_step_result:
  "handwriting_step hw final =
     Inr (if \<exists>fb\<in>set final. iou_exceeds (bbox hw) (bbox fb) then final
          else final @ [handwriting_block hw])"
  by (simp add: handwriting_step_def is_isolated_result handwriting_block_def)

lemma process_handwriting_prefix:
  "\<exists>extra. process_handwriting hws final = Inr (final @ extra)"
proof (induction hws arbitrary: final)
  case Nil
  then show ?case by simp
next
  case (Cons hw hws)
  show ?case
  proof (cases "\<exists>fb\<in>set final. iou_exceeds (bbox hw) (bbox fb)")
    case True
    with Cons.IH [of final] show ?thesis by (simp add: handwriting_step_result)
  next
    case False
    from Cons.IH [of "final @ [handwriting_block hw]"] obtain extra where
      "process_handwriting hws (final @ [handwriting_block hw])
         = Inr ((final @ [handwriting_block hw]) @ extra)" by blast
    with False show ?thesis by (simp add: handwriting_step_result)
  qed
qed

lemma final_blocks_before_merge_result:
  "\<exists>extra. final_blocks_before_merge base tables hws =
      Inr (map (table_block_for base) tables @ extra)"
proof -
  from process_tables_result [of base tables "[]" "{}"] obtain c where
    pt: "process_tables base tables [] {} = Inr (map (table_block_for base) tables, c)"
    by auto
  from process_remaining_prefix [of "enumerate 0 base" c "map (table_block_for base) tables"]
  obtain e1 where pr: "process_remaining (enumerate 0 base) c (map (table_block_for base) tables)
      = map (table_block_for base) tables @ e1" by blast
  from process_handwriting_prefix [of hws "map (table_block_for base) tables @ e1"]
  obtain e2 where "process_handwriting hws (map (table_block_for base) tables @ e1)
      = Inr ((map (table_block_for base) tables @ e1) @ e2)" by blast
  with pt pr show ?thesis by (simp add: final_blocks_before_merge_def)
qed

lemma calculate_intersection_bounds:
  "\<exists>s. calculate_intersection a b = Inr s \<and> 0 \<le> s \<and> s \<le> 1"
proof (cases "proper_box b")
  case True
  then have pos: "0 < box_area b" by (cases b) simp
  have "inter_area a b \<le> box_area b" using True by (rule inter_area_le_proper)
  with pos have "inter_area a b / box_area b \<le> 1" by simp
  moreover have "0 \<le> inter_area a b / box_area b"
    using pos inter_area_nonneg [of a b] by simp
  ultimately show ?thesis using pos by (simp add: calculate_intersection_value)
next
  case False
  then have "degenerate b" by (cases b) auto
  then have "inter_area a b = 0" by (rule inter_area_degenerate_right)
  then show ?thesis by (simp add: calculate_intersection_value)
qed

lemma degenerate_scores_zero:
  assumes "degenerate a \<or> degenerate b"
  shows "calculate_intersection a b = Inr 0 \<and> calculate_iou a b = Inr 0"
proof -
  from assms have "inter_area a b = 0"
    by (auto simp: inter_area_degenerate_left inter_area_degenerate_right)
  then show ?thesis by (simp add: calculate_intersection_value calculate_iou_value)
qed

lemma intelligent_merge_total:
  "\<exists>out. intelligent_merge base_blocks table_blocks hw_blocks = Inr out"
  using final_blocks_before_merge_result [of base_blocks table_blocks hw_blocks]
  by (auto simp: intelligent_merge_def)

lemma iou_exceeds_score: "calculate_iou a b = Inr s \<Longrightarrow> iou_exceeds a b = (0.2 < s)"
  by (simp add: iou_exceeds_def)

lemma process_handwriting_append:
  "process_handwriting xs start = Inr final \<Longrightarrow>
     process_handwriting (xs @ ys) start = process_handwriting ys final"
proof (induction xs arbitrary: start)
  case Nil
  then show ?case by simp
next
  case (Cons hw xs)
  obtain next_list where st: "handwriting_step hw start = Inr next_list"
    by (simp add: handwriting_step_result)
  with Cons.prems have "process_handwriting xs next_list = Inr final" by simp
  from Cons.IH [OF this] st show ?case by simp
qed

lemma process_handwriting_extra:
  "\<exists>extra. process_handwriting hws final = Inr (final @ extra)
      \<and> set extra \<subseteq> handwriting_block ` set hws"
proof (induction hws arbitrary: final)
  case Nil
  then show ?case by simp
next
  case (Cons hw hws)
  show ?case
  proof (cases "\<exists>fb\<in>set final. iou_exceeds (bbox hw) (bbox fb)")
    case True
    from Cons.IH [of final] obtain extra where
      "process_handwriting hws final = Inr (final @ extra)"
      "set extra \<subseteq> handwriting_block ` set hws" by blast
    with True show ?thesis by (auto simp: handwriting_step_result)
  next
    case False
    from Cons.IH [of "final @ [handwriting_block hw]"] obtain extra where
      e: "process_handwriting hws (final @ [handwriting_block hw])
         = Inr ((final @ [handwriting_block hw]) @ extra)"
      "set extra \<subseteq> handwriting_block ` set hws" by blast
    then have "process_handwriting (hw # hws) final
        = Inr (final @ (handwriting_block hw # extra))"
      using False by (simp add: handwriting_step_result)
    moreover have "set (handwriting_block hw # extra) \<subseteq> handwriting_block ` set (hw # hws)"
      using e(2) by auto
    ultimately show ?thesis by blast
  qed
qed

lemma final_blocks_before_merge_append:
  "final_blocks_before_merge base tables xs = Inr final \<Longrightarrow>
     final_blocks_before_merge base tables (xs @ ys) = process_handwriting ys final"
proof -
  assume f: "final_blocks_before_merge base tables xs = Inr final"
  from process_tables_result [of base tables "[]" "{}"] obtain consumed where
    pt: "process_tables base tables [] {} = Inr (map (table_block_for base) tables, consumed)"
    by auto
  let ?start = "process_remaining (enumerate 0 base) consumed (map (table_block_for base) tables)"
  from f pt have "process_handwriting xs ?start = Inr final"
    by (simp add: final_blocks_before_merge_def)
  from process_handwriting_append [OF this, of ys] pt show ?thesis
    by (simp add: final_blocks_before_merge_def)
qed

lemma untyped_text_group:
  assumes "b \<in> set bs" "\<not> text_like (type b)"
  shows "\<exists>g\<in>set (merge_groups bs).
           b \<in> set g \<and> (\<forall>x\<in>set g. type x = type b) \<and> type (fuse g) = type b"
proof -
  from assms(1) have "b \<in> set (concat (merge_groups bs))"
    by (simp only: concat_merge_groups set_sort)
  then obtain g where g: "g \<in> set (merge_groups bs)" and mem: "b \<in> set g" by auto
  have c: "coherent g" using g by (rule merge_groups_coherent)
  have nt: "\<not> (\<forall>x\<in>set g. text_like (type x))" using mem assms(2) by blast
  from c nt have same: "\<forall>x\<in>set g. type x = type (fuse g)"
    unfolding coherent_def by blast
  from same mem have tf: "type (fuse g) = type b" by simp
  from same tf have "\<forall>x\<in>set g. type x = type b" by simp
  with g mem tf show ?thesis by blast
qed

section \<open>The worker pool: facts\<close>

lemma query_raises:
  "get_worker env worker_name m = (Inl e, m1) \<Longrightarrow>
     query env worker_name payload m = (Raises e, m1)"
  by (simp add: query_def)

lemma get_worker_not_startable:
  assumes "\<forall>p. map_of (workers m) worker_name = Some p \<longrightarrow> \<not> running p"
    and "\<forall>path. map_of worker_paths worker_name = Some path \<longrightarrow> \<not> path_exists env path"
  shows "get_worker env worker_name m = (Inl FileNotFoundError, m)"
proof -
  have "start_worker env worker_name m = (Inl FileNotFoundError, m)"
    using assms(2) by (simp add: start_worker_def split: option.splits)
  with assms(1) show ?thesis by (simp add: get_worker_def split: option.splits)
qed

lemma exchange_unavailable:
  assumes "\<not> stdin_ok process
      \<or> replies process = []
      \<or> (\<exists>response rest. replies process = Line response # rest
            \<and> json_loads env response = None)"
  shows "fst (exchange env payload process) = Returns JNull"
  using assms by (auto simp: exchange_def Let_def)

lemma exchange_returns_or_hangs: "fst (exchange env payload process) \<noteq> Raises e"
  by (auto simp: exchange_def Let_def split: list.splits reply.splits option.splits)

lemma exchange_silence:
  "stdin_ok process \<Longrightarrow> replies process = Silence # rest \<Longrightarrow>
     fst (exchange env payload process) = Hangs"
  by (simp add: exchange_def Let_def)

lemma query_exchange:
  "get_worker env worker_name m = (Inr process, m1) \<Longrightarrow>
     fst (query env worker_name payload m) = fst (exchange env payload process)"
  by (simp add: query_def split: prod.splits)

lemma stop_workers_body_stops: "\<not> running (stop_workers_body proc)"
  by (simp add: stop_workers_body_def kill_def Let_def)

lemma stop_workers_stops:
  "proc \<in> set_option (vlm_process (stop_workers orch))
          \<union> set_option (ocr_process (stop_workers orch))
          \<union> set_option (table_process (stop_workers orch))
          \<union> set_option (audio_process (stop_workers orch))
     \<Longrightarrow> \<not> running proc"
  by (auto simp: stop_workers_def stop_workers_body_stops)

lemma stop_all_body_running:
  "running (stop_all_body proc) = (running proc \<and> stdin_ok proc)"
  by (simp add: stop_all_body_def kill_def)

section \<open>The pipeline: facts\<close>
















lemma node_router_fields:
  "file_path (node_router env state) = file_path state
   \<and> status (node_router env state) = ''routed''
   \<and> error (node_router env state) = error state"
  by (simp add: node_router_def)

section \<open>Properties of the specification: geometry\<close>

text \<open>
  C1 (as the code has it). \<open>calculate_iou\<close> divides the intersection area by the smaller
  of the two box areas, not by the area of the union. It never raises; it is symmetric;
  it is \<open>1\<close> on a box with itself when the box has positive width and height; it is \<open>0\<close>
  on boxes that do not overlap; and it is \<open>0\<close> whenever either box has area \<open>0\<close>.
\<close>

theorem calculate_iou_properties:
  "calculate_iou a b =
     Inr (if min (box_area a) (box_area b) = 0 then 0
          else inter_area a b / min (box_area a) (box_area b))
   \<and> calculate_iou a b = calculate_iou b a
   \<and> (proper_box a \<longrightarrow> calculate_iou a a = Inr 1)
   \<and> (\<not> overlapping a b \<longrightarrow> calculate_iou a b = Inr 0)
   \<and> (box_area a = 0 \<or> box_area b = 0 \<longrightarrow> calculate_iou a b = Inr 0)"
proof (intro conjI impI)
  show "calculate_iou a b =
     Inr (if min (box_area a) (box_area b) = 0 then 0
          else inter_area a b / min (box_area a) (box_area b))"
    by (rule calculate_iou_value)
  show "calculate_iou a b = calculate_iou b a"
    by (simp add: calculate_iou_value inter_area_commute min.commute)
  show "calculate_iou a a = Inr 1" if "proper_box a"
  proof -
    from that have "0 < box_area a" by (cases a) simp
    with that show ?thesis by (simp add: calculate_iou_value inter_area_self)
  qed
  show "calculate_iou a b = Inr 0" if "\<not> overlapping a b"
    using that by (simp add: calculate_iou_value inter_area_not_overlapping)
  show "calculate_iou a b = Inr 0" if "box_area a = 0 \<or> box_area b = 0"
  proof -
    from that have "degenerate a \<or> degenerate b"
      by (auto dest: box_area_zero_degenerate)
    then have "inter_area a b = 0"
      by (auto simp: inter_area_degenerate_left inter_area_degenerate_right)
    then show ?thesis by (simp add: calculate_iou_value)
  qed
qed

theorem calculate_iou_properties_witness:
  "proper_box (0, 0, 10, 10) \<and> calculate_iou (0, 0, 10, 10) (0, 0, 10, 10) = Inr 1
   \<and> \<not> overlapping (0, 0, 10, 10) (20, 0, 30, 10)
   \<and> calculate_iou (0, 0, 10, 10) (20, 0, 30, 10) = Inr 0
   \<and> box_area (5, 0, 5, 10) = 0 \<and> calculate_iou (0, 0, 10, 10) (5, 0, 5, 10) = Inr 0
   \<and> calculate_iou (0, 0, 10, 10) (5, 5, 15, 15) = Inr (1 / 4)"
  using calculate_iou_properties [of "(0, 0, 10, 10)" "(0, 0, 10, 10)"]
    calculate_iou_properties [of "(0, 0, 10, 10)" "(20, 0, 30, 10)"]
    calculate_iou_properties [of "(0, 0, 10, 10)" "(5, 0, 5, 10)"]
    calculate_iou_properties [of "(0, 0, 10, 10)" "(5, 5, 15, 15)"]
  by simp

text \<open>
  C1 as stated fails twice. A box of side 5 inside a box of side 10 scores \<open>1\<close>, where the
  standard intersection over union is \<open>1/4\<close>; and the box \<open>[10, 10, 0, 0]\<close>, whose
  area \<open>(0 - 10) * (0 - 10)\<close> is positive, scores \<open>0\<close> with itself.
\<close>

theorem calculate_iou_counterexample:
  "calculate_iou (0, 0, 10, 10) (0, 0, 5, 5) = Inr 1
   \<and> spec_intersectionOverUnion (0, 0, 10, 10) (0, 0, 5, 5) = 1 / 4
   \<and> calculate_iou (0, 0, 10, 10) (0, 0, 5, 5)
       \<noteq> Inr (spec_intersectionOverUnion (0, 0, 10, 10) (0, 0, 5, 5))
   \<and> 0 < box_area (10, 10, 0, 0)
   \<and> calculate_iou (10, 10, 0, 0) (10, 10, 0, 0) = Inr 0"
  by (simp add: truediv_def spec_intersectionOverUnion_def)

section \<open>Properties of the specification: merge engine\<close>

text \<open>
  C2 (as the code has it). Take a table detection, the \<open>i\<close>-th, such that no base block
  has a containment score above \<open>0.5\<close> in its box. \<open>intelligent_merge\<close> does not raise.
  The list it hands to \<open>merge_consecutive_blocks\<close> starts with one table block for each
  detection, in the order of the detections, and the block of this detection has content
  exactly \<open>[EMPTY_TABLE]\<close> and action \<open>extract_table_logic\<close>.
  \<open>merge_consecutive_blocks\<close> never drops it: the output is one block for each group of
  the input, the groups split the sorted input, and the group holding this block consists
  of blocks of type \<open>table\<close> and yields an output block of type \<open>table\<close> whose content
  is the contents of the group joined by line breaks; a group of this block alone yields
  the block unchanged.
\<close>

theorem empty_table_block:
  assumes "i < length table_blocks"
    and "\<forall>p\<in>set base_blocks. \<not> contained_in (bbox (table_blocks ! i)) (bbox p)"
  shows "\<exists>final_blocks.
      final_blocks_before_merge base_blocks table_blocks hw_blocks = Inr final_blocks
      \<and> intelligent_merge base_blocks table_blocks hw_blocks
          = Inr (map fuse (merge_groups final_blocks))
      \<and> concat (merge_groups final_blocks) = sort_key top_key final_blocks
      \<and> take (length table_blocks) final_blocks
          = map (table_block_for base_blocks) table_blocks
      \<and> i < length final_blocks
      \<and> final_blocks ! i =
          \<lparr>type = ''table'', bbox = bbox (table_blocks ! i),
           action = ''extract_table_logic'', content = ''[EMPTY_TABLE]''\<rparr>
      \<and> (\<exists>g\<in>set (merge_groups final_blocks).
            final_blocks ! i \<in> set g
            \<and> (\<forall>b\<in>set g. type b = ''table'')
            \<and> type (fuse g) = ''table''
            \<and> content (fuse g) = join nl (map content g)
            \<and> (length g = 1 \<longrightarrow> fuse g = final_blocks ! i))"
proof -
  let ?tbs = "map (table_block_for base_blocks) table_blocks"
  from final_blocks_before_merge_result [of base_blocks table_blocks hw_blocks]
  obtain extra where fb: "final_blocks_before_merge base_blocks table_blocks hw_blocks
      = Inr (?tbs @ extra)" by blast
  let ?fb = "?tbs @ extra"
  have im: "intelligent_merge base_blocks table_blocks hw_blocks
      = Inr (map fuse (merge_groups ?fb))"
    using fb by (simp add: intelligent_merge_def merge_consecutive_blocks_groups)
  have tk: "take (length table_blocks) ?fb = ?tbs" by simp
  have len: "i < length ?fb" using assms(1) by simp
  have "filter (\<lambda>p. contained_in (bbox (table_blocks ! i)) (bbox p)) base_blocks = []"
    using assms(2) by (simp add: filter_empty_conv)
  then have tb: "table_block_for base_blocks (table_blocks ! i) =
      \<lparr>type = ''table'', bbox = bbox (table_blocks ! i),
       action = ''extract_table_logic'', content = ''[EMPTY_TABLE]''\<rparr>"
    by (simp add: table_block_for_def)
  have at: "?fb ! i = table_block_for base_blocks (table_blocks ! i)"
    using assms(1) by (simp add: nth_append)
  have "?fb ! i \<in> set ?fb" using len by (rule nth_mem)
  then have "?fb ! i \<in> set (concat (merge_groups ?fb))"
    by (simp only: concat_merge_groups set_sort)
  then obtain g where g: "g \<in> set (merge_groups ?fb)" and mem: "?fb ! i \<in> set g"
    by auto
  from g have ne: "g \<noteq> []" using merge_groups_nonempty [of ?fb] by auto
  have ty: "type (?fb ! i) = ''table''" by (simp only: at tb) simp
  then have "\<not> text_like (type (?fb ! i))" by (simp add: text_like_def)
  with merge_groups_coherent [OF g] mem have same: "\<forall>b\<in>set g. type b = type (fuse g)"
    by (auto simp: coherent_def)
  with mem ty have tf: "type (fuse g) = ''table''" by auto
  with same have all: "\<forall>b\<in>set g. type b = ''table''" by simp
  have single: "fuse g = ?fb ! i" if "length g = 1"
  proof -
    from that obtain x where "g = [x]" by (cases g) auto
    with mem show ?thesis by (simp add: fuse_single)
  qed
  from g mem all tf content_fuse [OF ne] single
  have "\<exists>g\<in>set (merge_groups ?fb).
            ?fb ! i \<in> set g
            \<and> (\<forall>b\<in>set g. type b = ''table'')
            \<and> type (fuse g) = ''table''
            \<and> content (fuse g) = join nl (map content g)
            \<and> (length g = 1 \<longrightarrow> fuse g = ?fb ! i)"
    by blast
  with fb im concat_merge_groups [of ?fb] tk len at tb show ?thesis
    by (intro exI [of _ ?fb]) (simp only: simp_thms)
qed

theorem empty_table_block_witness:
  "0 < length [\<lparr>type = ''table'', bbox = (0, 0, 200, 200), conf = 0.9, source = ''microsoft_detr''\<rparr>]
   \<and> \<not> contained_in (0, 0, 200, 200) (0, 300, 100, 320)
   \<and> (\<exists>final_blocks.
        final_blocks_before_merge
          [\<lparr>type = ''text'', bbox = (0, 300, 100, 320), text = ''Hello''\<rparr>]
          [\<lparr>type = ''table'', bbox = (0, 0, 200, 200), conf = 0.9, source = ''microsoft_detr''\<rparr>]
          [] = Inr final_blocks
        \<and> final_blocks ! 0 =
            \<lparr>type = ''table'', bbox = (0, 0, 200, 200),
             action = ''extract_table_logic'', content = ''[EMPTY_TABLE]''\<rparr>)
   \<and> intelligent_merge
        [\<lparr>type = ''text'', bbox = (0, 300, 100, 320), text = ''Hello''\<rparr>]
        [\<lparr>type = ''table'', bbox = (0, 0, 200, 200), conf = 0.9, source = ''microsoft_detr''\<rparr>]
        []
      = Inr [\<lparr>type = ''table'', bbox = (0, 0, 200, 200),
              action = ''extract_table_logic'', content = ''[EMPTY_TABLE]''\<rparr>,
             \<lparr>type = ''text'', bbox = (0, 300, 100, 320),
              action = ''extract_text'', content = ''Hello''\<rparr>]"
proof -
  let ?t = "\<lparr>type = ''table'', bbox = (0, 0, 200, 200), conf = 0.9, source = ''microsoft_detr''\<rparr>"
  let ?p = "\<lparr>type = ''text'', bbox = (0, 300, 100, 320), text = ''Hello''\<rparr>"
  have h1: "0 < length [?t]" by simp
  have nc: "\<not> contained_in (0, 0, 200, 200) (0, 300, 100, 320)"
    by (simp add: contained_in_def truediv_def)
  then have h2: "\<forall>p\<in>set [?p]. \<not> contained_in (bbox ([?t] ! 0)) (bbox p)" by simp
  from empty_table_block [OF h1 h2, of "[]"]
  have "\<exists>final_blocks.
        final_blocks_before_merge [?p] [?t] [] = Inr final_blocks
        \<and> final_blocks ! 0 =
            \<lparr>type = ''table'', bbox = (0, 0, 200, 200),
             action = ''extract_table_logic'', content = ''[EMPTY_TABLE]''\<rparr>"
    by auto
  moreover have "intelligent_merge [?p] [?t] []
      = Inr [\<lparr>type = ''table'', bbox = (0, 0, 200, 200),
              action = ''extract_table_logic'', content = ''[EMPTY_TABLE]''\<rparr>,
             \<lparr>type = ''text'', bbox = (0, 300, 100, 320),
              action = ''extract_text'', content = ''Hello''\<rparr>]"
    by (simp add: intelligent_merge_def final_blocks_before_merge_def
        merge_consecutive_blocks_def merge_loop.simps truediv_def enumerate_eq_zip)
  ultimately show ?thesis using h1 nc by simp
qed

text \<open>
  C2 as stated fails: two table detections without any text, one 10 pixels below the
  other, come out as a single table block whose content is \<open>[EMPTY_TABLE]\<close> twice,
  joined by a line break. No block of the output has the content \<open>[EMPTY_TABLE]\<close>.
\<close>

theorem two_empty_tables_counterexample:
  "intelligent_merge []
      [\<lparr>type = ''table'', bbox = (0, 0, 10, 10), conf = 0.9, source = ''microsoft_detr''\<rparr>,
       \<lparr>type = ''table'', bbox = (0, 20, 10, 30), conf = 0.9, source = ''microsoft_detr''\<rparr>]
      []
    = Inr [\<lparr>type = ''table'', bbox = (0, 0, 10, 30), action = ''extract_table_logic'',
            content = ''[EMPTY_TABLE]'' @ [CHR 0x0A] @ ''[EMPTY_TABLE]''\<rparr>]"
  by (simp add: intelligent_merge_def final_blocks_before_merge_def
      merge_consecutive_blocks_def merge_loop.simps nl_def)

text \<open>
  C3 (as the code has it). Let \<open>final_blocks\<close> be the list as it stands when the
  handwriting detection \<open>hw\<close> is reached: the table blocks, the remaining base blocks
  and the handwriting regions of the detections \<open>pre\<close> before it. The test is on the
  score that \<open>calculate_iou\<close> returns, the intersection area over the smaller of the two
  areas, not the intersection over union. If the score of \<open>hw\<close> with some block of the
  list exceeds \<open>0.2\<close>, nothing is appended for \<open>hw\<close>; if the score with every block
  is at most \<open>0.2\<close>, exactly one block is appended for \<open>hw\<close>, of type
  \<open>handwriting_region\<close> with action \<open>send_to_ocr\<close>. The detections \<open>post\<close> after it
  only append blocks of their own behind it. The whole list then goes through
  \<open>merge_consecutive_blocks\<close>, where a \<open>handwriting_region\<close> block is kept inside a
  group of \<open>handwriting_region\<close> blocks that yields an output block of that type, so
  that neighbouring regions may come out as one block.
\<close>

theorem handwriting_isolation:
  assumes "final_blocks_before_merge base_blocks table_blocks pre = Inr final_blocks"
  shows "((\<exists>fb\<in>set final_blocks. \<exists>s. calculate_iou (bbox hw) (bbox fb) = Inr s \<and> 0.2 < s)
            \<longrightarrow> final_blocks_before_merge base_blocks table_blocks (pre @ [hw])
                  = Inr final_blocks)
       \<and> ((\<forall>fb\<in>set final_blocks. \<exists>s. calculate_iou (bbox hw) (bbox fb) = Inr s \<and> s \<le> 0.2)
            \<longrightarrow> final_blocks_before_merge base_blocks table_blocks (pre @ [hw])
                  = Inr (final_blocks @
                           [\<lparr>type = ''handwriting_region'', bbox = bbox hw,
                             action = ''send_to_ocr'', content = ''[HANDWRITING_IMAGE]''\<rparr>]))
       \<and> (\<exists>now extra.
             final_blocks_before_merge base_blocks table_blocks (pre @ [hw]) = Inr now
             \<and> final_blocks_before_merge base_blocks table_blocks (pre @ hw # post)
                 = Inr (now @ extra)
             \<and> set extra \<subseteq> handwriting_block ` set post
             \<and> intelligent_merge base_blocks table_blocks (pre @ hw # post)
                 = Inr (map fuse (merge_groups (now @ extra)))
             \<and> (\<forall>b\<in>set (now @ extra). type b = ''handwriting_region'' \<longrightarrow>
                   (\<exists>g\<in>set (merge_groups (now @ extra)).
                      b \<in> set g \<and> (\<forall>x\<in>set g. type x = ''handwriting_region'')
                      \<and> type (fuse g) = ''handwriting_region'')))
       \<and> calculate_iou (bbox hw) other =
           Inr (if min (box_area (bbox hw)) (box_area other) = 0 then 0
                else inter_area (bbox hw) other / min (box_area (bbox hw)) (box_area other))"
proof (intro conjI impI)
  have one: "final_blocks_before_merge base_blocks table_blocks (pre @ [hw])
      = handwriting_step hw final_blocks"
    using final_blocks_before_merge_append [OF assms, of "[hw]"]
    by (simp add: handwriting_step_result)
  {
    assume "\<exists>fb\<in>set final_blocks. \<exists>s. calculate_iou (bbox hw) (bbox fb) = Inr s \<and> 0.2 < s"
    then have "\<exists>fb\<in>set final_blocks. iou_exceeds (bbox hw) (bbox fb)"
      using iou_exceeds_score by blast
    then show "final_blocks_before_merge base_blocks table_blocks (pre @ [hw]) = Inr final_blocks"
      by (simp add: one handwriting_step_result)
  }
  {
    assume "\<forall>fb\<in>set final_blocks. \<exists>s. calculate_iou (bbox hw) (bbox fb) = Inr s \<and> s \<le> 0.2"
    then have "\<not> (\<exists>fb\<in>set final_blocks. iou_exceeds (bbox hw) (bbox fb))"
      using iou_exceeds_score by fastforce
    then show "final_blocks_before_merge base_blocks table_blocks (pre @ [hw])
        = Inr (final_blocks @
                 [\<lparr>type = ''handwriting_region'', bbox = bbox hw,
                   action = ''send_to_ocr'', content = ''[HANDWRITING_IMAGE]''\<rparr>])"
      by (simp add: one handwriting_step_result handwriting_block_def)
  }
  show "\<exists>now extra.
             final_blocks_before_merge base_blocks table_blocks (pre @ [hw]) = Inr now
             \<and> final_blocks_before_merge base_blocks table_blocks (pre @ hw # post)
                 = Inr (now @ extra)
             \<and> set extra \<subseteq> handwriting_block ` set post
             \<and> intelligent_merge base_blocks table_blocks (pre @ hw # post)
                 = Inr (map fuse (merge_groups (now @ extra)))
             \<and> (\<forall>b\<in>set (now @ extra). type b = ''handwriting_region'' \<longrightarrow>
                   (\<exists>g\<in>set (merge_groups (now @ extra)).
                      b \<in> set g \<and> (\<forall>x\<in>set g. type x = ''handwriting_region'')
                      \<and> type (fuse g) = ''handwriting_region''))"
  proof -
    obtain now where now: "final_blocks_before_merge base_blocks table_blocks (pre @ [hw]) = Inr now"
      by (simp add: one handwriting_step_result)
    from process_handwriting_extra [of post now] obtain extra where
      ex: "process_handwriting post now = Inr (now @ extra)"
      and sub: "set extra \<subseteq> handwriting_block ` set post" by blast
    have all: "final_blocks_before_merge base_blocks table_blocks (pre @ hw # post)
        = Inr (now @ extra)"
      using final_blocks_before_merge_append [OF now, of post] ex by simp
    then have im: "intelligent_merge base_blocks table_blocks (pre @ hw # post)
        = Inr (map fuse (merge_groups (now @ extra)))"
      by (simp add: intelligent_merge_def merge_consecutive_blocks_groups)
    have grp: "\<forall>b\<in>set (now @ extra). type b = ''handwriting_region'' \<longrightarrow>
        (\<exists>g\<in>set (merge_groups (now @ extra)).
           b \<in> set g \<and> (\<forall>x\<in>set g. type x = ''handwriting_region'')
           \<and> type (fuse g) = ''handwriting_region'')"
    proof (intro ballI impI)
      fix b assume b: "b \<in> set (now @ extra)" and t: "type b = ''handwriting_region''"
      then have "\<not> text_like (type b)" by (simp add: text_like_def)
      from untyped_text_group [OF b this] t
      show "\<exists>g\<in>set (merge_groups (now @ extra)).
           b \<in> set g \<and> (\<forall>x\<in>set g. type x = ''handwriting_region'')
           \<and> type (fuse g) = ''handwriting_region''" by simp
    qed
    from now all sub im grp show ?thesis by blast
  qed
  show "calculate_iou (bbox hw) other =
           Inr (if min (box_area (bbox hw)) (box_area other) = 0 then 0
                else inter_area (bbox hw) other / min (box_area (bbox hw)) (box_area other))"
    by (rule calculate_iou_value)
qed

theorem handwriting_isolation_witness:
  "final_blocks_before_merge [\<lparr>type = ''text'', bbox = (0, 0, 10, 10), text = ''ab''\<rparr>] [] []
     = Inr [\<lparr>type = ''text'', bbox = (0, 0, 10, 10), action = ''extract_text'', content = ''ab''\<rparr>]
   \<and> calculate_iou (2, 2, 8, 8) (0, 0, 10, 10) = Inr 1
   \<and> final_blocks_before_merge [\<lparr>type = ''text'', bbox = (0, 0, 10, 10), text = ''ab''\<rparr>] []
        [\<lparr>type = ''handwriting'', bbox = (2, 2, 8, 8), conf = 0.8, source = ''roboflow_inference''\<rparr>]
     = Inr [\<lparr>type = ''text'', bbox = (0, 0, 10, 10), action = ''extract_text'', content = ''ab''\<rparr>]
   \<and> calculate_iou (100, 100, 110, 110) (0, 0, 10, 10) = Inr 0
   \<and> final_blocks_before_merge [\<lparr>type = ''text'', bbox = (0, 0, 10, 10), text = ''ab''\<rparr>] []
        [\<lparr>type = ''handwriting'', bbox = (100, 100, 110, 110), conf = 0.8, source = ''roboflow_inference''\<rparr>]
     = Inr [\<lparr>type = ''text'', bbox = (0, 0, 10, 10), action = ''extract_text'', content = ''ab''\<rparr>,
            \<lparr>type = ''handwriting_region'', bbox = (100, 100, 110, 110),
             action = ''send_to_ocr'', content = ''[HANDWRITING_IMAGE]''\<rparr>]"
proof -
  let ?base = "[\<lparr>type = ''text'', bbox = (0, 0, 10, 10), text = ''ab''\<rparr>]"
  let ?fb = "\<lparr>type = ''text'', bbox = (0, 0, 10, 10), action = ''extract_text'', content = ''ab''\<rparr>"
  let ?h1 = "\<lparr>type = ''handwriting'', bbox = (2, 2, 8, 8), conf = 0.8, source = ''roboflow_inference''\<rparr>"
  let ?h2 = "\<lparr>type = ''handwriting'', bbox = (100, 100, 110, 110), conf = 0.8, source = ''roboflow_inference''\<rparr>"
  have start: "final_blocks_before_merge ?base [] [] = Inr [?fb]"
    by (simp add: final_blocks_before_merge_def enumerate_eq_zip)
  have s1: "calculate_iou (2, 2, 8, 8) (0, 0, 10, 10) = Inr 1" by (simp add: truediv_def)
  have s2: "calculate_iou (100, 100, 110, 110) (0, 0, 10, 10) = Inr 0" by (simp add: truediv_def)
  have a: "\<exists>fb\<in>set [?fb]. \<exists>s. calculate_iou (bbox ?h1) (bbox fb) = Inr s \<and> 0.2 < s"
    using s1 by simp
  have b: "\<forall>fb\<in>set [?fb]. \<exists>s. calculate_iou (bbox ?h2) (bbox fb) = Inr s \<and> s \<le> 0.2"
    using s2 by simp
  from handwriting_isolation [OF start, of ?h1] a
  have r1: "final_blocks_before_merge ?base [] ([] @ [?h1]) = Inr [?fb]" by blast
  from handwriting_isolation [OF start, of ?h2] b
  have r2: "final_blocks_before_merge ?base [] ([] @ [?h2]) = Inr ([?fb] @
      [\<lparr>type = ''handwriting_region'', bbox = bbox ?h2,
        action = ''send_to_ocr'', content = ''[HANDWRITING_IMAGE]''\<rparr>])" by blast
  from start s1 s2 r1 r2 show ?thesis by simp
qed

text \<open>
  C3 as stated fails. The handwriting box \<open>[0, 0, 4, 4]\<close> and the text block
  \<open>[0, 0, 10, 10]\<close> have an intersection over union of \<open>16/100\<close>, at most \<open>0.2\<close>,
  yet \<open>calculate_iou\<close> returns \<open>16/16 = 1\<close> and no \<open>handwriting_region\<close> block is
  emitted. And two isolated detections 10 pixels apart leave \<open>intelligent_merge\<close> as a
  single \<open>handwriting_region\<close> block.
\<close>

theorem handwriting_iou_counterexample:
  "spec_intersectionOverUnion (0, 0, 4, 4) (0, 0, 10, 10) = 4 / 25
   \<and> spec_intersectionOverUnion (0, 0, 4, 4) (0, 0, 10, 10) \<le> 0.2
   \<and> calculate_iou (0, 0, 4, 4) (0, 0, 10, 10) = Inr 1
   \<and> intelligent_merge
        [\<lparr>type = ''text'', bbox = (0, 0, 10, 10), text = ''ab''\<rparr>]
        []
        [\<lparr>type = ''handwriting'', bbox = (0, 0, 4, 4), conf = 0.8, source = ''roboflow_inference''\<rparr>]
      = Inr [\<lparr>type = ''text'', bbox = (0, 0, 10, 10), action = ''extract_text'', content = ''ab''\<rparr>]
   \<and> intelligent_merge [] []
        [\<lparr>type = ''handwriting'', bbox = (0, 0, 10, 10), conf = 0.8, source = ''roboflow_inference''\<rparr>,
         \<lparr>type = ''handwriting'', bbox = (0, 20, 10, 30), conf = 0.8, source = ''roboflow_inference''\<rparr>]
      = Inr [\<lparr>type = ''handwriting_region'', bbox = (0, 0, 10, 30), action = ''send_to_ocr'',
              content = ''[HANDWRITING_IMAGE]'' @ [CHR 0x0A] @ ''[HANDWRITING_IMAGE]''\<rparr>]"
  by (simp add: spec_intersectionOverUnion_def intelligent_merge_def
      final_blocks_before_merge_def handwriting_step_def merge_consecutive_blocks_def
      merge_loop.simps(2) enumerate_eq_zip truediv_def nl_def)

text \<open>
  C4. \<open>merge_consecutive_blocks\<close> is idempotent: applied to its own output it returns
  that output. The output is sorted by top edge and no block of it can be merged into the
  block before it, so the second pass merges nothing.
\<close>

theorem merge_consecutive_blocks_idempotent:
  "merge_consecutive_blocks (merge_consecutive_blocks blocks) = merge_consecutive_blocks blocks"
  using merge_consecutive_blocks_shape [OF refl, of blocks]
  by (simp add: merge_consecutive_blocks_fixed)

text \<open>
  C5 (as the code has it). The output of \<open>merge_consecutive_blocks\<close> is one block for
  each group of input blocks, the groups splitting the sorted input in order. In every
  group, either all blocks have the type of the output block, or the group is two or more
  text-like blocks (\<open>text\<close> or \<open>title\<close>, in any combination) and the output block has
  type \<open>text\<close>. A block of type \<open>table\<close> or \<open>handwriting_region\<close> is only ever
  grouped with blocks of its own type.
\<close>

theorem merge_consecutive_blocks_types:
  "merge_consecutive_blocks blocks = map fuse (merge_groups blocks)
   \<and> concat (merge_groups blocks) = sort_key top_key blocks
   \<and> (\<forall>g\<in>set (merge_groups blocks). g \<noteq> [] \<and>
        ((\<forall>b\<in>set g. type b = type (fuse g))
         \<or> (2 \<le> length g \<and> (\<forall>b\<in>set g. type b \<in> set [''text'', ''title''])
             \<and> type (fuse g) = ''text'')))
   \<and> (\<forall>g\<in>set (merge_groups blocks). \<forall>b\<in>set g.
        type b \<in> set [''table'', ''handwriting_region''] \<longrightarrow> (\<forall>b'\<in>set g. type b' = type b))"
proof (intro conjI ballI impI)
  show "merge_consecutive_blocks blocks = map fuse (merge_groups blocks)"
    by (rule merge_consecutive_blocks_groups)
  show "concat (merge_groups blocks) = sort_key top_key blocks"
    by (rule concat_merge_groups)
next
  fix g assume "g \<in> set (merge_groups blocks)"
  then show "g \<noteq> []" using merge_groups_nonempty [of blocks] by auto
next
  fix g assume "g \<in> set (merge_groups blocks)"
  then have "coherent g" by (rule merge_groups_coherent)
  then show "(\<forall>b\<in>set g. type b = type (fuse g))
         \<or> (2 \<le> length g \<and> (\<forall>b\<in>set g. type b \<in> set [''text'', ''title''])
             \<and> type (fuse g) = ''text'')"
    by (simp add: coherent_def text_like_def)
next
  fix g b b'
  assume g: "g \<in> set (merge_groups blocks)" and b: "b \<in> set g" "b' \<in> set g"
    and t: "type b \<in> set [''table'', ''handwriting_region'']"
  from g have "coherent g" by (rule merge_groups_coherent)
  moreover from t have "\<not> text_like (type b)" by (auto simp: text_like_def)
  ultimately have "\<forall>x\<in>set g. type x = type (fuse g)"
    using b(1) by (auto simp: coherent_def)
  with b show "type b' = type b" by simp
qed

theorem merge_consecutive_blocks_types_witness:
  "merge_groups
     [\<lparr>type = ''text'', bbox = (0, 0, 100, 20), action = ''extract_text'', content = ''A''\<rparr>,
      \<lparr>type = ''title'', bbox = (0, 30, 100, 50), action = ''extract_text'', content = ''B''\<rparr>,
      \<lparr>type = ''table'', bbox = (0, 60, 100, 80), action = ''extract_table_logic'', content = ''T''\<rparr>]
    = [[\<lparr>type = ''text'', bbox = (0, 0, 100, 20), action = ''extract_text'', content = ''A''\<rparr>,
        \<lparr>type = ''title'', bbox = (0, 30, 100, 50), action = ''extract_text'', content = ''B''\<rparr>],
       [\<lparr>type = ''table'', bbox = (0, 60, 100, 80), action = ''extract_table_logic'', content = ''T''\<rparr>]]
   \<and> merge_consecutive_blocks
     [\<lparr>type = ''text'', bbox = (0, 0, 100, 20), action = ''extract_text'', content = ''A''\<rparr>,
      \<lparr>type = ''title'', bbox = (0, 30, 100, 50), action = ''extract_text'', content = ''B''\<rparr>,
      \<lparr>type = ''table'', bbox = (0, 60, 100, 80), action = ''extract_table_logic'', content = ''T''\<rparr>]
    = [\<lparr>type = ''text'', bbox = (0, 0, 100, 50), action = ''extract_text'',
        content = ''A'' @ [CHR 0x0A] @ ''B''\<rparr>,
       \<lparr>type = ''table'', bbox = (0, 60, 100, 80), action = ''extract_table_logic'', content = ''T''\<rparr>]"
proof -
  let ?a = "\<lparr>type = ''text'', bbox = (0, 0, 100, 20), action = ''extract_text'', content = ''A''\<rparr>"
  let ?b = "\<lparr>type = ''title'', bbox = (0, 30, 100, 50), action = ''extract_text'', content = ''B''\<rparr>"
  let ?t = "\<lparr>type = ''table'', bbox = (0, 60, 100, 80), action = ''extract_table_logic'', content = ''T''\<rparr>"
  have g: "merge_groups [?a, ?b, ?t] = [[?a, ?b], [?t]]"
    by (simp add: merge_groups_def can_merge_def merged_block_def text_like_def)
  from merge_consecutive_blocks_types [of "[?a, ?b, ?t]"]
  have "merge_consecutive_blocks [?a, ?b, ?t] = map fuse (merge_groups [?a, ?b, ?t])"
    by blast
  with g show ?thesis
    by (simp add: fuse_def merged_block_def text_like_def nl_def)
qed

text \<open>
  C5 as stated fails: two \<open>title\<close> blocks 10 pixels apart merge into a block of type
  \<open>text\<close>, although no \<open>text\<close> block is among them.
\<close>

theorem two_titles_counterexample:
  "merge_consecutive_blocks
     [\<lparr>type = ''title'', bbox = (0, 0, 100, 20), action = ''extract_text'', content = ''A''\<rparr>,
      \<lparr>type = ''title'', bbox = (0, 30, 100, 50), action = ''extract_text'', content = ''B''\<rparr>]
   = [\<lparr>type = ''text'', bbox = (0, 0, 100, 50), action = ''extract_text'',
       content = ''A'' @ [CHR 0x0A] @ ''B''\<rparr>]"
  by (simp add: merge_consecutive_blocks_def merge_loop.simps nl_def)

text \<open>
  C6 (as the code has it). The merge engine does not filter degenerate boxes: they reach
  \<open>calculate_intersection\<close> and \<open>calculate_iou\<close>, which score them \<open>0\<close>. For all
  boxes, the containment score is returned without raising and lies in \<open>[0, 1]\<close>; it is
  \<open>1\<close> for a box of positive width and height with itself; it is \<open>0\<close> when the
  denominator, the member's area, is \<open>0\<close>. \<open>calculate_iou\<close> and \<open>intelligent_merge\<close>
  never raise either.
\<close>

theorem geometry_total_and_bounded:
  "(\<exists>s. calculate_intersection a b = Inr s \<and> 0 \<le> s \<and> s \<le> 1)
   \<and> (\<exists>s. calculate_iou a b = Inr s)
   \<and> (proper_box a \<longrightarrow> calculate_intersection a a = Inr 1)
   \<and> (box_area b = 0 \<longrightarrow> calculate_intersection a b = Inr 0)
   \<and> (degenerate a \<or> degenerate b \<longrightarrow>
        calculate_intersection a b = Inr 0 \<and> calculate_iou a b = Inr 0)
   \<and> (\<exists>out. intelligent_merge base_blocks table_blocks hw_blocks = Inr out)"
proof (intro conjI impI)
  show "\<exists>s. calculate_intersection a b = Inr s \<and> 0 \<le> s \<and> s \<le> 1"
    by (rule calculate_intersection_bounds)
  show "\<exists>s. calculate_iou a b = Inr s" by (rule calculate_iou_total)
  show "calculate_intersection a a = Inr 1" if "proper_box a"
  proof -
    from that have "0 < box_area a" by (cases a) simp
    with that show ?thesis by (simp add: calculate_intersection_value inter_area_self)
  qed
  show "calculate_intersection a b = Inr 0" if "box_area b = 0"
    using that by (simp add: calculate_intersection_value)
  show "calculate_intersection a b = Inr 0" if "degenerate a \<or> degenerate b"
    using degenerate_scores_zero [OF that] by simp
  show "calculate_iou a b = Inr 0" if "degenerate a \<or> degenerate b"
    using degenerate_scores_zero [OF that] by simp
  show "\<exists>out. intelligent_merge base_blocks table_blocks hw_blocks = Inr out"
    by (rule intelligent_merge_total)
qed

theorem geometry_total_and_bounded_witness:
  "proper_box (0, 0, 10, 10) \<and> calculate_intersection (0, 0, 10, 10) (0, 0, 10, 10) = Inr 1
   \<and> box_area (5, 0, 5, 10) = 0 \<and> degenerate (5, 0, 5, 10)
   \<and> calculate_intersection (0, 0, 10, 10) (5, 0, 5, 10) = Inr 0
   \<and> calculate_iou (0, 0, 10, 10) (5, 0, 5, 10) = Inr 0
   \<and> (\<exists>out. intelligent_merge [] [] [] = Inr out)"
  using geometry_total_and_bounded [of "(0, 0, 10, 10)" "(0, 0, 10, 10)" "[]" "[]" "[]"]
    geometry_total_and_bounded [of "(0, 0, 10, 10)" "(5, 0, 5, 10)" "[]" "[]" "[]"]
  by simp

text \<open>
  C6 as stated fails: a handwriting detection with the degenerate box \<open>[20, 20, 20, 20]\<close>
  is not filtered out. It is scored against the text block and comes out as a
  \<open>handwriting_region\<close> block.
\<close>

theorem degenerate_not_filtered_counterexample:
  "degenerate (20, 20, 20, 20)
   \<and> intelligent_merge
        [\<lparr>type = ''text'', bbox = (0, 0, 10, 10), text = ''ab''\<rparr>]
        []
        [\<lparr>type = ''handwriting'', bbox = (20, 20, 20, 20), conf = 1, source = ''roboflow_inference''\<rparr>]
      = Inr [\<lparr>type = ''text'', bbox = (0, 0, 10, 10), action = ''extract_text'', content = ''ab''\<rparr>,
             \<lparr>type = ''handwriting_region'', bbox = (20, 20, 20, 20),
              action = ''send_to_ocr'', content = ''[HANDWRITING_IMAGE]''\<rparr>]"
  by (simp add: intelligent_merge_def final_blocks_before_merge_def handwriting_step_def
      merge_consecutive_blocks_def enumerate_eq_zip truediv_def merge_loop.simps)

section \<open>Properties of the specification: worker pool\<close>

text \<open>
  C7 (as the code has it). \<open>query\<close> first asks \<open>get_worker\<close> for the process, outside
  its \<open>try\<close>. When the worker is not running and cannot be started, because the name
  is not in \<open>worker_paths\<close> or the script is not on disk, \<open>query\<close> raises
  \<open>FileNotFoundError\<close> to its caller. When \<open>get_worker\<close> hands over a process, the
  running one or one just started, \<open>query\<close> never raises: it returns \<open>None\<close> whenever the
  process is not writable, has no response line left before the end of its output, or
  answers with a line that is not JSON. A process that stays silent blocks the call.
\<close>

theorem query_unavailable:
  "((\<forall>p. map_of (workers m) worker_name = Some p \<longrightarrow> \<not> running p)
      \<and> (\<forall>path. map_of worker_paths worker_name = Some path \<longrightarrow> \<not> path_exists env path)
      \<longrightarrow> query env worker_name payload m = (Raises FileNotFoundError, m))
   \<and> (get_worker env worker_name m = (Inr process, m1) \<longrightarrow>
        (\<not> stdin_ok process
           \<or> replies process = []
           \<or> (\<exists>response rest. replies process = Line response # rest
                 \<and> json_loads env response = None)
           \<longrightarrow> fst (query env worker_name payload m) = Returns JNull)
        \<and> (stdin_ok process \<and> (\<exists>rest. replies process = Silence # rest)
           \<longrightarrow> fst (query env worker_name payload m) = Hangs)
        \<and> (\<forall>e. fst (query env worker_name payload m) \<noteq> Raises e))"
proof (intro conjI impI allI)
  assume "(\<forall>p. map_of (workers m) worker_name = Some p \<longrightarrow> \<not> running p)
      \<and> (\<forall>path. map_of worker_paths worker_name = Some path \<longrightarrow> \<not> path_exists env path)"
  then have "get_worker env worker_name m = (Inl FileNotFoundError, m)"
    by (intro get_worker_not_startable) simp_all
  then show "query env worker_name payload m = (Raises FileNotFoundError, m)"
    by (rule query_raises)
next
  assume g: "get_worker env worker_name m = (Inr process, m1)"
    and "\<not> stdin_ok process
           \<or> replies process = []
           \<or> (\<exists>response rest. replies process = Line response # rest
                 \<and> json_loads env response = None)"
  then show "fst (query env worker_name payload m) = Returns JNull"
    by (simp only: query_exchange [OF g] exchange_unavailable)
next
  assume g: "get_worker env worker_name m = (Inr process, m1)"
    and "stdin_ok process \<and> (\<exists>rest. replies process = Silence # rest)"
  then show "fst (query env worker_name payload m) = Hangs"
    by (auto simp: query_exchange [OF g] exchange_silence)
next
  fix e
  assume g: "get_worker env worker_name m = (Inr process, m1)"
  show "fst (query env worker_name payload m) \<noteq> Raises e"
    by (simp add: query_exchange [OF g] exchange_returns_or_hangs)
qed

theorem query_unavailable_witness:
  "query no_scripts_env ''ocr'' (JStr ''page.jpg'') \<lparr>workers = []\<rparr>
     = (Raises FileNotFoundError, \<lparr>workers = []\<rparr>)
   \<and> fst (query demo_env ''ocr'' (JStr ''page.jpg'')
            \<lparr>workers = [(''ocr'', worker_with [Line ''garbage''])]\<rparr>) = Returns JNull
   \<and> fst (query demo_env ''ocr'' (JStr ''page.jpg'')
            \<lparr>workers = [(''ocr'', (worker_with [])\<lparr>stdin_ok := False\<rparr>)]\<rparr>) = Returns JNull
   \<and> fst (query demo_env ''ocr'' (JStr ''page.jpg'') \<lparr>workers = []\<rparr>) = Returns JNull
   \<and> fst (query demo_env ''ocr'' (JStr ''page.jpg'')
            \<lparr>workers = [(''ocr'', stuck_worker)]\<rparr>) = Hangs"
proof -
  let ?m1 = "\<lparr>workers = [(''ocr'', worker_with [Line ''garbage''])]\<rparr>"
  let ?m2 = "\<lparr>workers = [(''ocr'', (worker_with [])\<lparr>stdin_ok := False\<rparr>)]\<rparr>"
  let ?m3 = "\<lparr>workers = []\<rparr> :: manager"
  let ?m4 = "\<lparr>workers = [(''ocr'', stuck_worker)]\<rparr>"
  let ?p = "JStr ''page.jpg''"
  have a: "(\<forall>p. map_of (workers ?m3) ''ocr'' = Some p \<longrightarrow> \<not> running p)
      \<and> (\<forall>path. map_of worker_paths ''ocr'' = Some path \<longrightarrow> \<not> path_exists no_scripts_env path)"
    by (simp add: worker_paths_def no_scripts_env_def)
  have g1: "get_worker demo_env ''ocr'' ?m1 = (Inr (worker_with [Line ''garbage'']), ?m1)"
    by (simp add: get_worker_def worker_with_def)
  have g2: "get_worker demo_env ''ocr'' ?m2 = (Inr ((worker_with [])\<lparr>stdin_ok := False\<rparr>), ?m2)"
    by (simp add: get_worker_def worker_with_def)
  have g3: "get_worker demo_env ''ocr'' ?m3
      = (Inr (worker_with []), \<lparr>workers = [(''ocr'', worker_with [])]\<rparr>)"
    by (simp add: get_worker_def start_worker_def worker_paths_def demo_env_def)
  have g4: "get_worker demo_env ''ocr'' ?m4 = (Inr stuck_worker, ?m4)"
    by (simp add: get_worker_def stuck_worker_def)
  have l: "json_loads demo_env ''garbage'' = None"
    by (simp add: demo_env_def demo_loads_def)
  from query_unavailable [of ?m3 "''ocr''" no_scripts_env ?p] a
  have r0: "query no_scripts_env ''ocr'' ?p ?m3 = (Raises FileNotFoundError, ?m3)" by blast
  from query_unavailable [of ?m1 "''ocr''" demo_env ?p "worker_with [Line ''garbage'']" ?m1] g1 l
  have r1: "fst (query demo_env ''ocr'' ?p ?m1) = Returns JNull"
    by (simp add: worker_with_def)
  from query_unavailable [of ?m2 "''ocr''" demo_env ?p "(worker_with [])\<lparr>stdin_ok := False\<rparr>" ?m2] g2
  have r2: "fst (query demo_env ''ocr'' ?p ?m2) = Returns JNull" by simp
  from query_unavailable [of ?m3 "''ocr''" demo_env ?p "worker_with []"
      "\<lparr>workers = [(''ocr'', worker_with [])]\<rparr>"] g3
  have r3: "fst (query demo_env ''ocr'' ?p ?m3) = Returns JNull"
    by (simp add: worker_with_def)
  from query_unavailable [of ?m4 "''ocr''" demo_env ?p stuck_worker ?m4] g4
  have r4: "fst (query demo_env ''ocr'' ?p ?m4) = Hangs"
    by (simp add: stuck_worker_def)
  from r0 r1 r2 r3 r4 show ?thesis by simp
qed

text \<open>
  C7 as stated fails: the worker is not running and \<open>query\<close> raises. The script of
  a known capability is missing, with the worker never started or started and exited; or
  the capability has no entry in \<open>worker_paths\<close>. And where the script is there, a
  worker that has exited is started again and the answer of the new process is returned,
  not \<open>None\<close>.
\<close>

theorem query_raises_counterexample:
  "query no_scripts_env ''ocr'' (JStr ''page.jpg'') \<lparr>workers = []\<rparr>
     = (Raises FileNotFoundError, \<lparr>workers = []\<rparr>)
   \<and> query no_scripts_env ''ocr'' (JStr ''page.jpg'')
        \<lparr>workers = [(''ocr'', (worker_with [])\<lparr>running := False\<rparr>)]\<rparr>
     = (Raises FileNotFoundError,
        \<lparr>workers = [(''ocr'', (worker_with [])\<lparr>running := False\<rparr>)]\<rparr>)
   \<and> query demo_env ''summarize'' (JStr ''page.jpg'') \<lparr>workers = []\<rparr>
     = (Raises FileNotFoundError, \<lparr>workers = []\<rparr>)
   \<and> fst (query restart_env ''ocr'' (JStr ''page.jpg'')
            \<lparr>workers = [(''ocr'', (worker_with [])\<lparr>running := False\<rparr>)]\<rparr>)
     = Returns (JList [JDict [(''text'', JStr ''hi'')]])"
  by (simp add: query_def get_worker_def start_worker_def worker_paths_def exchange_def
      no_scripts_env_def restart_env_def demo_env_def demo_loads_def worker_with_def)

text \<open>
  C8. \<open>WorkerManager.stop_all\<close> writes \<open>EXIT\<close> to a running worker and returns: it
  neither waits nor kills a worker that accepted the line. A worker that does not heed
  \<open>EXIT\<close> is still running when \<open>stop_all\<close> has returned and cleared the
  dictionary, and stays so after any grace period. \<open>PipelineOrchestrator.stop_workers\<close>
  on the same worker waits and then kills it (lemma \<open>stop_workers_stops\<close>: it leaves
  no process running).
\<close>

theorem stop_all_leaves_worker_running:
  "stop_all \<lparr>workers = [(''ocr'', stuck_worker)]\<rparr>
     = (\<lparr>workers = []\<rparr>, [stuck_worker\<lparr>received := [''EXIT'' @ nl]\<rparr>])
   \<and> running (stuck_worker\<lparr>received := [''EXIT'' @ nl]\<rparr>)
   \<and> running (after_grace (stuck_worker\<lparr>received := [''EXIT'' @ nl]\<rparr>))
   \<and> \<not> running (the (ocr_process (stop_workers
         \<lparr>vlm_process = None, ocr_process = Some stuck_worker,
          table_process = None, audio_process = None\<rparr>)))"
  by (simp add: stop_all_def stop_all_body_def stuck_worker_def after_grace_def
      stop_workers_def stop_workers_body_def kill_def)

section \<open>Properties of the specification: pipeline\<close>

text \<open>
  C9. On the media path, that is when the router classifies the file as \<open>media\<close>, let
  the transcription worker be queried on the audio file (the file itself, or the track
  extracted from a video) and let the query return \<open>result\<close>. If \<open>result\<close> is \<open>None\<close>
  (or another value that Python counts as false: there is no result at all) or a
  dictionary with the key \<open>error\<close>, the run ends after the nodes \<open>router\<close> and
  \<open>process_media\<close> with status \<open>failed\<close> and \<open>str(result)\<close> in the state's error
  field. If \<open>result\<close> is a non-empty dictionary without the key \<open>error\<close>, the run ends
  after the same two nodes, with no enrichment node, with status \<open>completed\<close> and the
  transcription in \<open>rag_ready_data\<close>.
\<close>

theorem media_path_outcome:
  assumes "file_type (node_router env state) = ''media''"
    and "media_target env (file_path state) = Some target_path"
    and "query env ''audio'' (JStr (abspath env target_path)) m = (Returns result, m1)"
  shows "(\<not> truthy result \<or> (\<exists>d. result = JDict d \<and> ''error'' \<in> fst ` set d) \<longrightarrow>
            app_workflow_invoke env state m =
              ((Returns ((node_router env state)
                           \<lparr>error := Some (py_str env result), status := ''failed''\<rparr>),
                [Router, Process_media]), m1))
       \<and> (\<forall>d. result = JDict d \<and> d \<noteq> [] \<and> ''error'' \<notin> fst ` set d \<longrightarrow>
            app_workflow_invoke env state m =
              ((Returns ((node_router env state)
                           \<lparr>rag_ready_data :=
                              Some [Audio_transcription (basename env (file_path state))
                                      (case map_of d ''language'' of None \<Rightarrow> JNull | Some v \<Rightarrow> v)
                                      (case map_of d ''duration'' of None \<Rightarrow> JNull | Some v \<Rightarrow> v)
                                      (case map_of d ''blocks'' of None \<Rightarrow> JList [] | Some v \<Rightarrow> v)],
                            status := ''completed''\<rparr>),
                [Router, Process_media]), m1))"
proof -
  let ?routed = "node_router env state"
  note rf = node_router_fields [of env state]
  have route: "route_next_step ?routed = To_process_media"
    using assms(1) rf by (simp add: route_next_step_def)
  have node: "node_process_media env ?routed m = (media_result env ?routed result, m1)"
    using assms(2,3) rf by (simp add: node_process_media_def)
  have inv: "app_workflow_invoke env state m =
      ((media_result env ?routed result, [Router, Process_media]), m1)"
    using route node by (simp add: app_workflow_invoke_def Let_def)
  show ?thesis
  proof (intro conjI impI allI)
    assume "\<not> truthy result \<or> (\<exists>d. result = JDict d \<and> ''error'' \<in> fst ` set d)"
    then consider (falsy) "\<not> truthy result"
      | (err) d where "result = JDict d" "''error'' \<in> fst ` set d" by blast
    then have "\<not> truthy result \<or> (truthy result \<and> py_in ''error'' result = Inr True)"
    proof cases
      case falsy
      then show ?thesis by simp
    next
      case err
      from err(2) have "d \<noteq> []" by auto
      with err show ?thesis by simp
    qed
    then have "media_result env ?routed result =
        Returns (?routed\<lparr>error := Some (py_str env result), status := ''failed''\<rparr>)"
      by (auto simp: media_result_def Let_def)
    with inv show "app_workflow_invoke env state m =
              ((Returns (?routed\<lparr>error := Some (py_str env result), status := ''failed''\<rparr>),
                [Router, Process_media]), m1)" by simp
  next
    fix d assume "result = JDict d \<and> d \<noteq> [] \<and> ''error'' \<notin> fst ` set d"
    then have "media_result env ?routed result =
        Returns (?routed
                   \<lparr>rag_ready_data :=
                      Some [Audio_transcription (basename env (file_path state))
                              (case map_of d ''language'' of None \<Rightarrow> JNull | Some v \<Rightarrow> v)
                              (case map_of d ''duration'' of None \<Rightarrow> JNull | Some v \<Rightarrow> v)
                              (case map_of d ''blocks'' of None \<Rightarrow> JList [] | Some v \<Rightarrow> v)],
                    status := ''completed''\<rparr>)"
      using rf by (simp add: media_result_def Let_def)
    with inv show "app_workflow_invoke env state m =
              ((Returns (?routed
                           \<lparr>rag_ready_data :=
                              Some [Audio_transcription (basename env (file_path state))
                                      (case map_of d ''language'' of None \<Rightarrow> JNull | Some v \<Rightarrow> v)
                                      (case map_of d ''duration'' of None \<Rightarrow> JNull | Some v \<Rightarrow> v)
                                      (case map_of d ''blocks'' of None \<Rightarrow> JList [] | Some v \<Rightarrow> v)],
                            status := ''completed''\<rparr>),
                [Router, Process_media]), m1)" by simp
  qed
qed

theorem media_path_outcome_witness:
  "fst (app_workflow_invoke demo_env demo_state
          \<lparr>workers = [(''audio'', worker_with [Line ''error line''])]\<rparr>)
     = (Returns (demo_state\<lparr>file_type := ''media'', status := ''failed'',
                            error := Some ''<repr>''\<rparr>),
        [Router, Process_media])
   \<and> fst (app_workflow_invoke demo_env demo_state
          \<lparr>workers = [(''audio'', worker_with [])]\<rparr>)
     = (Returns (demo_state\<lparr>file_type := ''media'', status := ''failed'',
                            error := Some ''None''\<rparr>),
        [Router, Process_media])
   \<and> fst (app_workflow_invoke demo_env demo_state
          \<lparr>workers = [(''audio'', worker_with [Line ''transcript line''])]\<rparr>)
     = (Returns (demo_state\<lparr>file_type := ''media'', status := ''completed'',
                            rag_ready_data :=
                              Some [Audio_transcription ''talk.mp3'' (JStr ''ar'') (JNum 12)
                                      (JList [])]\<rparr>),
        [Router, Process_media])"
proof -
  let ?m = "\<lambda>rs. \<lparr>workers = [(''audio'', worker_with rs)]\<rparr>"
  let ?sent = "\<lparr>workers = [(''audio'', (worker_with [])\<lparr>received := [''talk.mp3'' @ nl]\<rparr>)]\<rparr>"
  let ?err = "JDict [(''error'', JStr ''decode failed'')]"
  let ?ok = "JDict [(''language'', JStr ''ar''), (''duration'', JNum 12), (''blocks'', JList [])]"
  have h1: "file_type (node_router demo_env demo_state) = ''media''"
    by (simp add: node_router_def demo_env_def demo_state_def SUPPORTED_AUDIO_def)
  have h2: "media_target demo_env (file_path demo_state) = Some ''talk.mp3''"
    by (simp add: media_target_def demo_env_def demo_state_def SUPPORTED_VIDEO_def)
  have q: "query demo_env ''audio'' (JStr (abspath demo_env ''talk.mp3'')) (?m [Line ''error line''])
      = (Returns ?err, ?sent)"
    "query demo_env ''audio'' (JStr (abspath demo_env ''talk.mp3'')) (?m [])
      = (Returns JNull, ?sent)"
    "query demo_env ''audio'' (JStr (abspath demo_env ''talk.mp3'')) (?m [Line ''transcript line''])
      = (Returns ?ok, ?sent)"
    by (simp_all add: query_def get_worker_def exchange_def worker_with_def demo_env_def
        demo_loads_def Let_def)
  note r1 = media_path_outcome [OF h1 h2 q(1)]
  note r2 = media_path_outcome [OF h1 h2 q(2)]
  note r3 = media_path_outcome [OF h1 h2 q(3)]
  have n: "node_router demo_env demo_state
      = demo_state\<lparr>file_type := ''media'', status := ''routed''\<rparr>"
    by (simp add: node_router_def demo_env_def demo_state_def SUPPORTED_AUDIO_def)
  from r1 have "fst (app_workflow_invoke demo_env demo_state (?m [Line ''error line'']))
      = (Returns ((node_router demo_env demo_state)
                    \<lparr>error := Some (py_str demo_env ?err), status := ''failed''\<rparr>),
         [Router, Process_media])" by simp
  moreover from r2 have "fst (app_workflow_invoke demo_env demo_state (?m []))
      = (Returns ((node_router demo_env demo_state)
                    \<lparr>error := Some (py_str demo_env JNull), status := ''failed''\<rparr>),
         [Router, Process_media])" by simp
  moreover from r3 have "fst (app_workflow_invoke demo_env demo_state (?m [Line ''transcript line'']))
      = (Returns ((node_router demo_env demo_state)
                    \<lparr>rag_ready_data :=
                       Some [Audio_transcription (basename demo_env (file_path demo_state))
                               (JStr ''ar'') (JNum 12) (JList [])],
                     status := ''completed''\<rparr>),
         [Router, Process_media])" by simp
  moreover have "py_str demo_env ?err = ''<repr>''" "py_str demo_env JNull = ''None''"
    "basename demo_env (file_path demo_state) = ''talk.mp3''"
    by (simp_all add: demo_env_def demo_repr_def demo_state_def)
  ultimately show ?thesis by (simp only: n) simp
qed




end
